theory Spec2Isabelle
  imports Complex_Main
begin

section \<open>Data model\<close>

text \<open>
  The add-on drives Blender through \<^verbatim>\<open>bpy\<close>. The scene it works on is modelled as an
  explicit \<open>world\<close> value that every operation takes and returns. A pose bone handle
  is the pair of its owning object (\<^verbatim>\<open>id_data\<close>) and its name; an entity's edit bone,
  bone and pose bone are one record. Numbers are exact reals.
  An exception leaves the scene as mutated so far, so a raising call returns
  \<open>Inl (error, world)\<close> and a returning call \<open>Inr result\<close>.
\<close>

type_synonym obj_id = string
type_synonym pose_bone = "obj_id \<times> string"
type_synonym vec3 = "real \<times> real \<times> real"
type_synonym quat = "real \<times> real \<times> real \<times> real"

datatype rotation_mode = QUATERNION | XYZ | XZY | YXZ | YZX | ZXY | ZYX | AXIS_ANGLE

datatype constraint_type = COPY_TRANSFORMS | COPY_LOCATION | COPY_ROTATION | IK | OTHER

datatype tag = NONE | EMPTY | SPACE | COPY

datatype mode = OBJECT | EDIT | POSE

datatype error =
    ValueError string
  | RuntimeError string
  | KeyError string
  | AttributeError string
  | HostError string

datatype prop_value = V3 vec3 | V4 quat

record constraint =
  c_id :: nat
  c_type :: constraint_type
  c_has_target :: bool
  c_target :: "obj_id option"
  c_subtarget :: string
  c_head_tail :: real
  c_pole_target :: "obj_id option"
  c_pole_subtarget :: string

record channels =
  location :: vec3
  rotation_quaternion :: quat
  rotation_euler :: vec3
  rotation_axis_angle :: quat
  scale :: vec3

record display =
  custom_shape :: "obj_id option"
  custom_shape_translation :: vec3
  custom_shape_rotation_euler :: vec3
  custom_shape_scale_xyz :: vec3
  custom_shape_transform :: "pose_bone option"
  use_custom_shape_bone_size :: bool

record bone =
  parent :: "string option"
  use_connect :: bool
  use_deform :: bool
  head :: vec3
  tail :: vec3
  hide :: bool
  select :: bool
  space_switching_tag :: tag
  show_wire :: bool
  rotation_mode :: rotation_mode
  pose :: channels
  shape :: display
  constraints :: "constraint list"

record keyframe =
  k_bone :: pose_bone
  k_path :: string
  k_frame :: int
  k_group :: string
  k_value :: prop_value

text \<open>
  \<open>keyframes\<close> holds the keys of the scene's actions in the order of their insertion.
  \<open>action\<close> is \<open>None\<close> for an object without animation data, \<open>Some False\<close> for
  animation data without an action, \<open>Some True\<close> with one.
\<close>

record world =
  frame_current :: int
  mode :: mode
  active_object :: "obj_id option"
  objects :: "obj_id list"
  object_type :: "obj_id \<Rightarrow> string"
  object_select :: "obj_id \<Rightarrow> bool"
  show_in_front :: "obj_id \<Rightarrow> bool"
  armature_name :: "obj_id \<Rightarrow> string"
  bone_names :: "obj_id \<Rightarrow> string list"
  bones :: "pose_bone \<Rightarrow> bone"
  active_bone :: "obj_id \<Rightarrow> string option"
  action :: "obj_id \<Rightarrow> bool option"
  keyframes :: "keyframe list"
  next_id :: nat

text \<open>
  What the host decides is a parameter: the visual transform of a pose bone in the
  evaluated scene (\<^verbatim>\<open>convert_space\<close> of \<^verbatim>\<open>pose_bone.matrix\<close> from pose to local space),
  the channel values the animation system evaluates, the decomposition of a transform
  into channels, whether \<^verbatim>\<open>keyframe_insert\<close> and \<^verbatim>\<open>mode_set\<close> raise, how a new bone's
  name is made unique, and \<^verbatim>\<open>str.format\<close> on a naming template.
\<close>

record 'm host =
  visual_local :: "world \<Rightarrow> pose_bone \<Rightarrow> 'm"
  evaluated_pose :: "world \<Rightarrow> pose_bone \<Rightarrow> channels"
  m_location :: "'m \<Rightarrow> vec3"
  m_scale :: "'m \<Rightarrow> vec3"
  m_quaternion :: "'m \<Rightarrow> quat"
  m_axis_angle :: "'m \<Rightarrow> quat"
  m_euler :: "rotation_mode \<Rightarrow> 'm \<Rightarrow> vec3"
  keyframe_insert_fails :: "world \<Rightarrow> pose_bone \<Rightarrow> string \<Rightarrow> int \<Rightarrow> bool"
  mode_set_fails :: "world \<Rightarrow> mode \<Rightarrow> bool"
  unique_name :: "string list \<Rightarrow> string \<Rightarrow> string"
  format :: "string \<Rightarrow> string \<Rightarrow> string \<Rightarrow> string \<Rightarrow> string"

type_synonym 'a outcome = "(error \<times> world) + 'a"

definition bind :: "'a outcome \<Rightarrow> ('a \<Rightarrow> 'b outcome) \<Rightarrow> 'b outcome" where
  "bind r f = (case r of Inl e \<Rightarrow> Inl e | Inr x \<Rightarrow> f x)"

definition final_world :: "world outcome \<Rightarrow> world" where
  "final_world r = (case r of Inl (e, w) \<Rightarrow> w | Inr w \<Rightarrow> w)"

section \<open>Host primitives\<close>

definition update_bone :: "pose_bone \<Rightarrow> (bone \<Rightarrow> bone) \<Rightarrow> world \<Rightarrow> world" where
  "update_bone pb f w = w\<lparr>bones := (bones w)(pb := f (bones w pb))\<rparr>"

text \<open>\<^verbatim>\<open>context.view_layer.update()\<close>: every pose bone takes its evaluated channel values.\<close>

definition view_layer_update :: "'m host \<Rightarrow> world \<Rightarrow> world" where
  "view_layer_update h w =
     w\<lparr>bones := (\<lambda>pb. (bones w pb)\<lparr>pose := evaluated_pose h w pb\<rparr>)\<rparr>"

text \<open>\<^verbatim>\<open>scene.frame_set(frame)\<close>: move the time cursor and re-evaluate.\<close>

definition frame_set :: "'m host \<Rightarrow> int \<Rightarrow> world \<Rightarrow> world" where
  "frame_set h f w = view_layer_update h (w\<lparr>frame_current := f\<rparr>)"

text \<open>
  Assigning \<^verbatim>\<open>pose_bone.matrix_basis\<close>: the host decomposes the transform into location,
  scale and the rotation channel of the bone's current rotation mode.
\<close>

definition apply_matrix :: "'m host \<Rightarrow> 'm \<Rightarrow> bone \<Rightarrow> bone" where
  "apply_matrix h m b =
     (let p = (pose b)\<lparr>location := m_location h m, scale := m_scale h m\<rparr>
      in b\<lparr>pose :=
           (if rotation_mode b = QUATERNION then p\<lparr>rotation_quaternion := m_quaternion h m\<rparr>
            else if rotation_mode b = AXIS_ANGLE then p\<lparr>rotation_axis_angle := m_axis_angle h m\<rparr>
            else p\<lparr>rotation_euler := m_euler h (rotation_mode b) m\<rparr>)\<rparr>)"

definition set_matrix_basis :: "'m host \<Rightarrow> pose_bone \<Rightarrow> 'm \<Rightarrow> world \<Rightarrow> world" where
  "set_matrix_basis h pb m w = update_bone pb (apply_matrix h m) w"

definition property_value :: "string \<Rightarrow> bone \<Rightarrow> prop_value" where
  "property_value path b =
     (if path = ''location'' then V3 (location (pose b))
      else if path = ''rotation_quaternion'' then V4 (rotation_quaternion (pose b))
      else if path = ''rotation_axis_angle'' then V4 (rotation_axis_angle (pose b))
      else if path = ''rotation_euler'' then V3 (rotation_euler (pose b))
      else V3 (scale (pose b)))"

text \<open>
  \<^verbatim>\<open>pose_bone.keyframe_insert(path, index=-1, frame=frame, group=group)\<close>: keys the current
  value of every component of the property at \<open>frame\<close>, creating the object's action
  when there is none, or raises.
\<close>

definition keyframe_insert ::
  "'m host \<Rightarrow> pose_bone \<Rightarrow> string \<Rightarrow> int \<Rightarrow> string \<Rightarrow> world \<Rightarrow> world outcome" where
  "keyframe_insert h pb path frame grp w =
     (if keyframe_insert_fails h w pb path frame
      then Inl (HostError ''keyframe_insert'', w)
      else Inr (w\<lparr>keyframes := keyframes w @
                    [\<lparr>k_bone = pb, k_path = path, k_frame = frame, k_group = grp,
                      k_value = property_value path (bones w pb)\<rparr>],
                  action := (action w)(fst pb := Some True)\<rparr>))"

section \<open>Rotation continuity helpers\<close>

definition quat_negate :: "quat \<Rightarrow> quat" where
  "quat_negate q = (case q of (a, b, c, d) \<Rightarrow> (- a, - b, - c, - d))"


definition quat_dist_sq :: "quat \<Rightarrow> quat \<Rightarrow> real" where
  "quat_dist_sq p q =
     (case p of (a, b, c, d) \<Rightarrow> case q of (a', b', c', d') \<Rightarrow>
        (a - a')\<^sup>2 + (b - b')\<^sup>2 + (c - c')\<^sup>2 + (d - d')\<^sup>2)"

text \<open>
  Modelled from the spec: \<^verbatim>\<open>Quaternion.make_compatible\<close> belongs to the host's
  \<^verbatim>\<open>mathutils\<close> library, which is not part of the repository. The spec: "flip the
  current quaternion's sign to minimize the 4D distance to the previous one".
\<close>

definition quat_make_compatible :: "quat \<Rightarrow> quat \<Rightarrow> quat" where
  "quat_make_compatible q old =
     (if quat_dist_sq (quat_negate q) old < quat_dist_sq q old then quat_negate q else q)"

definition angle_make_compatible :: "real \<Rightarrow> real \<Rightarrow> real" where
  "angle_make_compatible e old = e - 2 * pi * of_int (round ((e - old) / (2 * pi)))"

text \<open>
  Modelled from the spec: \<^verbatim>\<open>Euler.make_compatible\<close> belongs to the host's \<^verbatim>\<open>mathutils\<close>
  library, which is not part of the repository. The spec: "adjust the current Euler
  triple by adding multiples of a full turn to each component to minimize total angular
  distance from the previous frame's Euler triple".
\<close>

definition euler_make_compatible :: "vec3 \<Rightarrow> vec3 \<Rightarrow> vec3" where
  "euler_make_compatible e old =
     (case e of (x, y, z) \<Rightarrow> case old of (x', y', z') \<Rightarrow>
        (angle_make_compatible x x', angle_make_compatible y y', angle_make_compatible z z'))"


section \<open>custom_bake\<close>

text \<open>The sampling sweep: one row of transforms per pose bone, one column per frame.\<close>

fun sample_frames ::
  "'m host \<Rightarrow> pose_bone list \<Rightarrow> int list \<Rightarrow> 'm list list \<Rightarrow> world \<Rightarrow> 'm list list \<times> world" where
  "sample_frames h pose_bones [] pose_info w = (pose_info, w)"
| "sample_frames h pose_bones (frame # frames) pose_info w =
     (let w1 = view_layer_update h (frame_set h frame w)
      in sample_frames h pose_bones frames
           (map (\<lambda>(row, pb). row @ [visual_local h w1 pb]) (zip pose_info pose_bones)) w1)"

text \<open>The rotation branch of the keying loop's body, with the two continuity variables.\<close>

definition bake_rotation ::
  "'m host \<Rightarrow> pose_bone \<Rightarrow> int \<Rightarrow> vec3 option \<times> quat option \<times> world
     \<Rightarrow> (vec3 option \<times> quat option \<times> world) outcome" where
  "bake_rotation h pb frame s =
     (case s of (euler_prev, quat_prev, w) \<Rightarrow>
        if rotation_mode (bones w pb) = QUATERNION then
          (case quat_prev of
             Some qp \<Rightarrow>
               (let quat = quat_make_compatible (rotation_quaternion (pose (bones w pb))) qp;
                    w1 = update_bone pb (\<lambda>b. b\<lparr>pose := (pose b)\<lparr>rotation_quaternion := quat\<rparr>\<rparr>) w
                in bind (keyframe_insert h pb ''rotation_quaternion'' frame (snd pb) w1)
                     (\<lambda>w2. Inr (euler_prev, Some quat, w2)))
           | None \<Rightarrow>
               bind (keyframe_insert h pb ''rotation_quaternion'' frame (snd pb) w)
                 (\<lambda>w2. Inr (euler_prev, Some (rotation_quaternion (pose (bones w pb))), w2)))
        else if rotation_mode (bones w pb) = AXIS_ANGLE then
          bind (keyframe_insert h pb ''rotation_axis_angle'' frame (snd pb) w)
            (\<lambda>w2. Inr (euler_prev, quat_prev, w2))
        else
          (case euler_prev of
             Some ep \<Rightarrow>
               (let euler = euler_make_compatible (rotation_euler (pose (bones w pb))) ep;
                    w1 = update_bone pb (\<lambda>b. b\<lparr>pose := (pose b)\<lparr>rotation_euler := euler\<rparr>\<rparr>) w
                in bind (keyframe_insert h pb ''rotation_euler'' frame (snd pb) w1)
                     (\<lambda>w2. Inr (Some euler, quat_prev, w2)))
           | None \<Rightarrow>
               bind (keyframe_insert h pb ''rotation_euler'' frame (snd pb) w)
                 (\<lambda>w2. Inr (Some (rotation_euler (pose (bones w pb))), quat_prev, w2))))"

text \<open>The body of the keying loop for one pose bone at one frame.\<close>

definition bake_frame ::
  "'m host \<Rightarrow> bool \<Rightarrow> bool \<Rightarrow> bool \<Rightarrow> pose_bone \<Rightarrow> 'm \<Rightarrow> int
     \<Rightarrow> vec3 option \<times> quat option \<times> world \<Rightarrow> (vec3 option \<times> quat option \<times> world) outcome" where
  "bake_frame h do_location do_rotation do_scale pb m frame s =
     (case s of (euler_prev, quat_prev, w) \<Rightarrow>
        let w1 = set_matrix_basis h pb m w
        in bind (if do_location \<and> \<not> use_connect (bones w1 pb)
                 then keyframe_insert h pb ''location'' frame (snd pb) w1 else Inr w1)
             (\<lambda>w2. bind (if do_rotation then bake_rotation h pb frame (euler_prev, quat_prev, w2)
                          else Inr (euler_prev, quat_prev, w2))
                (\<lambda>(ep, qp, w3).
                   bind (if do_scale then keyframe_insert h pb ''scale'' frame (snd pb) w3
                         else Inr w3)
                     (\<lambda>w4. Inr (ep, qp, w4)))))"

fun bake_frames ::
  "'m host \<Rightarrow> bool \<Rightarrow> bool \<Rightarrow> bool \<Rightarrow> pose_bone \<Rightarrow> ('m \<times> int) list
     \<Rightarrow> vec3 option \<times> quat option \<times> world \<Rightarrow> (vec3 option \<times> quat option \<times> world) outcome" where
  "bake_frames h dl dr ds pb [] s = Inr s"
| "bake_frames h dl dr ds pb ((m, frame) # rest) s =
     bind (bake_frame h dl dr ds pb m frame s) (bake_frames h dl dr ds pb rest)"

text \<open>
  The keying loop over the pose bones: \<open>euler_prev\<close> and \<open>quat_prev\<close> start at \<open>None\<close>
  for each bone. Row \<open>i\<close> of \<open>pose_info\<close> is read at the index of each frame; the rows
  have one entry per frame (\<open>sample_frames_rows\<close> below), so the zip reads them all.
\<close>

fun bake_bones ::
  "'m host \<Rightarrow> bool \<Rightarrow> bool \<Rightarrow> bool \<Rightarrow> int list \<Rightarrow> (pose_bone \<times> 'm list) list
     \<Rightarrow> world \<Rightarrow> world outcome" where
  "bake_bones h dl dr ds frames [] w = Inr w"
| "bake_bones h dl dr ds frames ((pb, row) # rest) w =
     bind (bake_frames h dl dr ds pb (zip row frames) (None, None, w))
       (\<lambda>(ep, qp, w1). bake_bones h dl dr ds frames rest w1)"

definition custom_bake ::
  "'m host \<Rightarrow> int list \<Rightarrow> pose_bone list \<Rightarrow> bool \<Rightarrow> bool \<Rightarrow> bool \<Rightarrow> world \<Rightarrow> world outcome" where
  "custom_bake h frames pose_bones do_location do_rotation do_scale w =
     (if \<not> do_location \<and> \<not> do_rotation \<and> \<not> do_scale
      then Inl (ValueError ''No channels enabled'', w)
      else
        let original_frame = frame_current w;
            (pose_info, w1) =
              sample_frames h pose_bones frames (replicate (length pose_bones) []) w
        in bind (bake_bones h do_location do_rotation do_scale frames (zip pose_bones pose_info) w1)
             (\<lambda>w2. Inr (frame_set h original_frame w2)))"

section \<open>Context and scene helpers\<close>

text \<open>
  What the operators read from \<^verbatim>\<open>context\<close>: the objects in the current mode, the selected
  pose bones and the active pose bone, as the host reports them for a scene, and the
  add-on preferences (the name of the temporary armature object and of its armature,
  and the naming templates of the temporary bones).
\<close>

record ctx =
  objects_in_mode :: "world \<Rightarrow> obj_id list"
  selected_pose_bones :: "world \<Rightarrow> pose_bone list"
  active_pose_bone :: "world \<Rightarrow> pose_bone option"
  object_name :: string
  prefs_armature_name :: string
  copy_name :: string
  parent_name :: string
  space_name :: string

text \<open>\<^verbatim>\<open>bpy.ops.object.mode_set(mode = ...)\<close>: changes the mode, or raises.\<close>

definition mode_set :: "'m host \<Rightarrow> mode \<Rightarrow> world \<Rightarrow> world outcome" where
  "mode_set h m w =
     (if mode_set_fails h w m then Inl (HostError ''mode_set'', w) else Inr (w\<lparr>mode := m\<rparr>))"

definition select_set :: "obj_id \<Rightarrow> bool \<Rightarrow> world \<Rightarrow> world" where
  "select_set ob v w = w\<lparr>object_select := (object_select w)(ob := v)\<rparr>"

text \<open>A bone as the host creates it: no parent, no constraint, rest values everywhere.\<close>

definition new_bone :: bone where
  "new_bone = \<lparr>parent = None, use_connect = False, use_deform = True, head = (0, 0, 0),
     tail = (0, 0, 0), hide = False, select = False, space_switching_tag = NONE,
     show_wire = False, rotation_mode = QUATERNION,
     pose = \<lparr>location = (0, 0, 0), rotation_quaternion = (1, 0, 0, 0),
       rotation_euler = (0, 0, 0), rotation_axis_angle = (0, 0, 1, 0), scale = (1, 1, 1)\<rparr>,
     shape = \<lparr>custom_shape = None, custom_shape_translation = (0, 0, 0),
       custom_shape_rotation_euler = (0, 0, 0), custom_shape_scale_xyz = (1, 1, 1),
       custom_shape_transform = None, use_custom_shape_bone_size = True\<rparr>,
     constraints = []\<rparr>"

definition get_space_switching_armature_object :: "ctx \<Rightarrow> world \<Rightarrow> obj_id \<times> world" where
  "get_space_switching_armature_object c w =
     (if object_name c \<in> set (objects w) then (object_name c, w)
      else (object_name c,
            w\<lparr>objects := objects w @ [object_name c],
              object_type := (object_type w)(object_name c := ''ARMATURE''),
              object_select := (object_select w)(object_name c := False),
              armature_name := (armature_name w)(object_name c := prefs_armature_name c),
              bone_names := (bone_names w)(object_name c := []),
              active_bone := (active_bone w)(object_name c := None),
              action := (action w)(object_name c := None),
              show_in_front := (show_in_front w)(object_name c := True)\<rparr>))"

definition get_armature_objects :: "world \<Rightarrow> obj_id list" where
  "get_armature_objects w = filter (\<lambda>ob. object_type w ob = ''ARMATURE'') (objects w)"

text \<open>\<^verbatim>\<open>bone.length\<close>: the distance from head to tail.\<close>

definition bone_length :: "bone \<Rightarrow> real" where
  "bone_length b =
     (case head b of (x, y, z) \<Rightarrow> case tail b of (x', y', z') \<Rightarrow>
        sqrt ((x - x')\<^sup>2 + (y - y')\<^sup>2 + (z - z')\<^sup>2))"

text \<open>\<^verbatim>\<open>edit_bones.new(name)\<close>: the host makes the name unique within the armature.\<close>

definition edit_bones_new :: "'m host \<Rightarrow> obj_id \<Rightarrow> string \<Rightarrow> world \<Rightarrow> string \<times> world" where
  "edit_bones_new h ob desired w =
     (let name = unique_name h (bone_names w ob) desired
      in (name, w\<lparr>bone_names := (bone_names w)(ob := bone_names w ob @ [name]),
                   bones := (bones w)((ob, name) := new_bone)\<rparr>))"

text \<open>\<^verbatim>\<open>edit_bones.remove(bone)\<close>: the children of the bone lose their parent.\<close>

definition edit_bones_remove :: "obj_id \<Rightarrow> string \<Rightarrow> world \<Rightarrow> world" where
  "edit_bones_remove ob name w =
     w\<lparr>bone_names := (bone_names w)(ob := removeAll name (bone_names w ob)),
       bones := (\<lambda>pb. if fst pb = ob \<and> parent (bones w pb) = Some name
                       then (bones w pb)\<lparr>parent := None, use_connect := False\<rparr>
                       else bones w pb)\<rparr>"

text \<open>
  \<^verbatim>\<open>pose_bone.constraints.new(type)\<close>: a constraint with a fresh identity, appended to the
  bone's stack. A constraint is referred to by its identity afterwards.
\<close>

definition constraints_new :: "pose_bone \<Rightarrow> constraint_type \<Rightarrow> world \<Rightarrow> constraint \<times> world" where
  "constraints_new pb ty w =
     (let k = \<lparr>c_id = next_id w, c_type = ty, c_has_target = True, c_target = None,
                c_subtarget = [], c_head_tail = 0, c_pole_target = None, c_pole_subtarget = []\<rparr>
      in (k, (update_bone pb (\<lambda>b. b\<lparr>constraints := constraints b @ [k]\<rparr>) w)
               \<lparr>next_id := Suc (next_id w)\<rparr>))"

definition update_constraint ::
  "pose_bone \<Rightarrow> nat \<Rightarrow> (constraint \<Rightarrow> constraint) \<Rightarrow> world \<Rightarrow> world" where
  "update_constraint pb i f w =
     update_bone pb
       (\<lambda>b. b\<lparr>constraints := map (\<lambda>k. if c_id k = i then f k else k) (constraints b)\<rparr>) w"

definition constraints_remove :: "pose_bone \<Rightarrow> nat \<Rightarrow> world \<Rightarrow> world" where
  "constraints_remove pb i w =
     update_bone pb (\<lambda>b. b\<lparr>constraints := filter (\<lambda>k. c_id k \<noteq> i) (constraints b)\<rparr>) w"

section \<open>_space_switch\<close>

text \<open>
  The body of the loop over the source bones in edit mode: the copy, and for a connected
  source its two parents, for another source with a destination the destination's stand-in.
\<close>

definition create_temp_bones ::
  "'m host \<Rightarrow> ctx \<Rightarrow> obj_id \<Rightarrow> pose_bone option \<Rightarrow> pose_bone \<Rightarrow> world \<Rightarrow> (string \<times> world) outcome" where
  "create_temp_bones h c temp_obj dest src w =
     (let desired_name = format h (copy_name c) (snd src) (armature_name w (fst src)) (fst src);
          (temp, w1) = edit_bones_new h temp_obj desired_name w;
          w2 = update_bone (temp_obj, temp) (\<lambda>b. b\<lparr>head := (0, 0, 0)\<rparr>) w1;
          w3 = update_bone (temp_obj, temp)
                 (\<lambda>b. b\<lparr>tail := (0, bone_length (bones w2 src), 0), use_deform := False\<rparr>) w2
      in if use_connect (bones w3 src) then
           (let parent_desired_name =
                  format h (parent_name c) (snd src) (armature_name w3 (fst src)) (fst src)
            in bind (case dest of
                       Some d \<Rightarrow>
                         Inr (format h (space_name c) (snd d) (armature_name w3 (fst d)) (fst d))
                     | None \<Rightarrow>
                         (case parent (bones w3 src) of
                            None \<Rightarrow> Inl (AttributeError ''name'', w3)
                          | Some pn \<Rightarrow>
                              Inr (format h (space_name c) pn (armature_name w3 (fst src)) (fst src))))
                 (\<lambda>child_desired_name.
                    let (temp_parent, w4) = edit_bones_new h temp_obj parent_desired_name w3;
                        w5 = update_bone (temp_obj, temp_parent)
                               (\<lambda>b. b\<lparr>head := (0, 0, 0), tail := (0, 1, 0), use_deform := False\<rparr>) w4;
                        (temp_child, w6) = edit_bones_new h temp_obj child_desired_name w5;
                        w7 = update_bone (temp_obj, temp_child)
                               (\<lambda>b. b\<lparr>head := (0, - 1, 0), tail := (0, 0, 0), use_deform := False,
                                      parent := Some temp_parent\<rparr>) w6;
                        w8 = update_bone (temp_obj, temp)
                               (\<lambda>b. b\<lparr>parent := Some temp_child, use_connect := True\<rparr>) w7
                    in Inr (temp, w8)))
         else
           (case dest of
              Some d \<Rightarrow>
                (let desired = format h (space_name c) (snd d) (armature_name w3 (fst d)) (fst d);
                     (temp_dest, w4) = edit_bones_new h temp_obj desired w3;
                     w5 = update_bone (temp_obj, temp_dest) (\<lambda>b. b\<lparr>head := (0, 0, 0)\<rparr>) w4;
                     w6 = update_bone (temp_obj, temp_dest)
                            (\<lambda>b. b\<lparr>tail := (0, bone_length (bones w5 d), 0), use_deform := False\<rparr>) w5;
                     w7 = update_bone (temp_obj, temp) (\<lambda>b. b\<lparr>parent := Some temp_dest\<rparr>) w6
                 in Inr (temp, w7))
            | None \<Rightarrow> Inr (temp, w3)))"

fun create_all_temp_bones ::
  "'m host \<Rightarrow> ctx \<Rightarrow> obj_id \<Rightarrow> pose_bone option \<Rightarrow> pose_bone list \<Rightarrow> string list \<Rightarrow> world
     \<Rightarrow> (string list \<times> world) outcome" where
  "create_all_temp_bones h c temp_obj dest [] temp_bone_names w = Inr (temp_bone_names, w)"
| "create_all_temp_bones h c temp_obj dest (src # rest) temp_bone_names w =
     bind (create_temp_bones h c temp_obj dest src w)
       (\<lambda>(temp, w1). create_all_temp_bones h c temp_obj dest rest (temp_bone_names @ [temp]) w1)"

text \<open>
  The constraints of the anchor of a copy that has a parent \<open>pn\<close>: for a connected source
  the anchor is the parent's parent.
\<close>

definition constrain_anchor ::
  "obj_id \<Rightarrow> pose_bone option \<Rightarrow> pose_bone \<Rightarrow> string \<Rightarrow> world \<Rightarrow> world outcome" where
  "constrain_anchor temp_obj dest src pn w =
     bind (if use_connect (bones w src)
           then (let w1 = update_bone (temp_obj, pn)
                            (\<lambda>b. b\<lparr>hide := True, space_switching_tag := SPACE\<rparr>) w
                 in case parent (bones w1 (temp_obj, pn)) of
                      None \<Rightarrow> Inl (AttributeError ''bone'', w1)
                    | Some gn \<Rightarrow> Inr (gn, w1))
           else Inr (pn, w))
       (\<lambda>(dn, w2).
          let temp_dest = (temp_obj, dn);
              w3 = update_bone temp_dest (\<lambda>b. b\<lparr>hide := True, space_switching_tag := SPACE\<rparr>) w2;
              (copy_location, w4) = constraints_new temp_dest COPY_LOCATION w3
          in bind (if use_connect (bones w4 src)
                   then (case parent (bones w4 src) of
                           None \<Rightarrow> Inl (AttributeError ''id_data'', w4)
                         | Some sp \<Rightarrow>
                             Inr (update_constraint temp_dest (c_id copy_location)
                                    (\<lambda>k. k\<lparr>c_target := Some (fst src), c_subtarget := sp,
                                           c_head_tail := 1\<rparr>) w4))
                   else (case dest of
                           Some d \<Rightarrow>
                             Inr (update_constraint temp_dest (c_id copy_location)
                                    (\<lambda>k. k\<lparr>c_target := Some (fst d), c_subtarget := snd d\<rparr>) w4)
                         | None \<Rightarrow> Inr w4))
               (\<lambda>w5. case dest of
                        Some d \<Rightarrow>
                          (let (copy_rotation, w6) = constraints_new temp_dest COPY_ROTATION w5
                           in Inr (update_constraint temp_dest (c_id copy_rotation)
                                     (\<lambda>k. k\<lparr>c_target := Some (fst d), c_subtarget := snd d\<rparr>) w6))
                      | None \<Rightarrow> Inr w5))"

text \<open>The body of the loop over the pairs of a source bone and the name of its copy, in
  pose mode. The capture constraint is remembered by its identity.\<close>

definition constrain_temp_bone ::
  "obj_id \<Rightarrow> pose_bone option \<Rightarrow> pose_bone option \<Rightarrow> pose_bone \<Rightarrow> string
     \<Rightarrow> pose_bone list \<times> nat list \<times> world \<Rightarrow> (pose_bone list \<times> nat list \<times> world) outcome" where
  "constrain_temp_bone temp_obj dest src_active src temp_bone_name s =
     (case s of (temp_pose_bones, constraints_to_remove, w) \<Rightarrow>
        if temp_bone_name \<notin> set (bone_names w temp_obj) then Inl (KeyError temp_bone_name, w)
        else
          let temp = (temp_obj, temp_bone_name);
              w1 = update_bone temp (\<lambda>b. b\<lparr>select := True, space_switching_tag := COPY\<rparr>) w;
              src_rotation_mode = rotation_mode (bones w1 src);
              w2 = (if use_connect (bones w1 src) \<and> src_rotation_mode \<noteq> QUATERNION
                       \<and> src_rotation_mode \<noteq> AXIS_ANGLE
                    then update_bone temp (\<lambda>b. b\<lparr>rotation_mode := QUATERNION\<rparr>) w1
                    else
                      (let wa = update_bone temp
                                  (\<lambda>b. b\<lparr>rotation_mode := rotation_mode (bones w1 src)\<rparr>) w1
                       in update_bone temp
                            (\<lambda>b. b\<lparr>pose := (pose b)\<lparr>rotation_axis_angle :=
                                     rotation_axis_angle (pose (bones wa src))\<rparr>\<rparr>) wa));
              w3 = update_bone temp
                     (\<lambda>b. b\<lparr>shape := shape (bones w2 src), show_wire := show_wire (bones w2 src)\<rparr>) w2;
              (copy_transforms, w4) = constraints_new temp COPY_TRANSFORMS w3;
              w5 = update_constraint temp (c_id copy_transforms)
                     (\<lambda>k. k\<lparr>c_target := Some (fst src), c_subtarget := snd src\<rparr>) w4;
              w6 = (if Some src = src_active
                    then w5\<lparr>active_bone := (active_bone w5)(temp_obj := Some temp_bone_name)\<rparr>
                    else w5)
          in bind (case parent (bones w6 temp) of
                     None \<Rightarrow> Inr w6
                   | Some pn \<Rightarrow> constrain_anchor temp_obj dest src pn w6)
               (\<lambda>w7. Inr (temp_pose_bones @ [temp], constraints_to_remove @ [c_id copy_transforms], w7)))"

fun constrain_all_temp_bones ::
  "obj_id \<Rightarrow> pose_bone option \<Rightarrow> pose_bone option \<Rightarrow> (pose_bone \<times> string) list
     \<Rightarrow> pose_bone list \<times> nat list \<times> world \<Rightarrow> (pose_bone list \<times> nat list \<times> world) outcome" where
  "constrain_all_temp_bones temp_obj dest src_active [] s = Inr s"
| "constrain_all_temp_bones temp_obj dest src_active ((src, temp_bone_name) # rest) s =
     bind (constrain_temp_bone temp_obj dest src_active src temp_bone_name s)
       (constrain_all_temp_bones temp_obj dest src_active rest)"

text \<open>The last loop: the capture constraint goes, the source is constrained to its copy.\<close>

definition reverse_constrain :: "pose_bone \<Rightarrow> pose_bone \<Rightarrow> nat \<Rightarrow> world \<Rightarrow> world" where
  "reverse_constrain src temp i w =
     (let w1 = constraints_remove temp i w;
          w2 = (if \<not> use_connect (bones w1 src)
                then (let (reverse_copy_location, wa) = constraints_new src COPY_LOCATION w1
                      in update_constraint src (c_id reverse_copy_location)
                           (\<lambda>k. k\<lparr>c_target := Some (fst temp), c_subtarget := snd temp\<rparr>) wa)
                else w1);
          (reverse_copy_rotation, w3) = constraints_new src COPY_ROTATION w2
      in update_constraint src (c_id reverse_copy_rotation)
           (\<lambda>k. k\<lparr>c_target := Some (fst temp), c_subtarget := snd temp\<rparr>) w3)"

fun reverse_constrain_all :: "(pose_bone \<times> pose_bone \<times> nat) list \<Rightarrow> world \<Rightarrow> world" where
  "reverse_constrain_all [] w = w"
| "reverse_constrain_all ((src, temp, i) # rest) w =
     reverse_constrain_all rest (reverse_constrain src temp i w)"

text \<open>
  \<^verbatim>\<open>src_pose_bones.remove(dest_pose_bone)\<close> removes the first occurrence and raises when
  there is none, which the bare \<^verbatim>\<open>except\<close> swallows; with no destination nothing equals
  \<^verbatim>\<open>None\<close>.
\<close>

definition working_bones :: "pose_bone list \<Rightarrow> pose_bone option \<Rightarrow> pose_bone list" where
  "working_bones src_pose_bones dest_pose_bone =
     (case dest_pose_bone of None \<Rightarrow> src_pose_bones | Some d \<Rightarrow> remove1 d src_pose_bones)"

definition space_switch ::
  "'m host \<Rightarrow> ctx \<Rightarrow> pose_bone list \<Rightarrow> pose_bone option \<Rightarrow> int list \<Rightarrow> world \<Rightarrow> world outcome" where
  "space_switch h c src_pose_bones0 dest_pose_bone frames w =
     (let original_objects = objects_in_mode c w;
          src_active_pose_bone = active_pose_bone c w;
          src_pose_bones = working_bones src_pose_bones0 dest_pose_bone
      in if length src_pose_bones < 1 then Inr w
         else
           let w1 = fold (\<lambda>pb. update_bone pb (\<lambda>b. b\<lparr>select := False\<rparr>)) (selected_pose_bones c w) w;
               w2 = fold (\<lambda>pb. update_bone pb (\<lambda>b. b\<lparr>hide := True\<rparr>)) src_pose_bones w1
           in bind (mode_set h OBJECT w2) (\<lambda>w3.
                let w4 = fold (\<lambda>ob. select_set ob False) original_objects w3;
                    (temp_obj, w5) = get_space_switching_armature_object c w4;
                    w6 = (select_set temp_obj True w5)\<lparr>active_object := Some temp_obj\<rparr>
                in bind (mode_set h EDIT w6) (\<lambda>w7.
                   bind (create_all_temp_bones h c temp_obj dest_pose_bone src_pose_bones [] w7)
                     (\<lambda>(temp_bone_names, w8).
                   bind (mode_set h OBJECT w8) (\<lambda>w9.
                     let w10 = fold (\<lambda>ob v. (select_set ob True v)
                                   \<lparr>active_bone := (active_bone v)(ob := None)\<rparr>) original_objects w9
                     in bind (mode_set h POSE w10) (\<lambda>w11.
                          if length src_pose_bones \<noteq> length temp_bone_names
                          then Inl (RuntimeError ''edit bones list mismatch'', w11)
                          else
                            bind (constrain_all_temp_bones temp_obj dest_pose_bone src_active_pose_bone
                                    (zip src_pose_bones temp_bone_names) ([], [], w11))
                              (\<lambda>(temp_pose_bones, constraints_to_remove, w12).
                            bind (custom_bake h frames temp_pose_bones True True True w12) (\<lambda>w13.
                              if length src_pose_bones \<noteq> length temp_pose_bones
                                 \<or> length src_pose_bones \<noteq> length constraints_to_remove
                              then Inl (RuntimeError ''reverse constraints list mismatch'', w13)
                              else Inr (reverse_constrain_all
                                          (zip src_pose_bones (zip temp_pose_bones constraints_to_remove))
                                          w13)))))))))"

section \<open>_remove_bones_common\<close>

definition is_constrained_to :: "constraint \<Rightarrow> pose_bone \<Rightarrow> bool" where
  "is_constrained_to k target_pose_bone \<longleftrightarrow>
     (c_has_target k \<and> c_target k = Some (fst target_pose_bone)
        \<and> c_subtarget k = snd target_pose_bone) \<or>
     (c_type k = IK \<and> c_pole_target k = Some (fst target_pose_bone)
        \<and> c_pole_subtarget k = snd target_pose_bone)"

text \<open>The pose bones of the given objects, in the order of the two nested loops.\<close>

definition pose_bones_of :: "world \<Rightarrow> obj_id list \<Rightarrow> pose_bone list" where
  "pose_bones_of w obs = concat (map (\<lambda>ob. map (Pair ob) (bone_names w ob)) obs)"

definition was_constrained :: "world \<Rightarrow> pose_bone \<Rightarrow> pose_bone \<Rightarrow> bool" where
  "was_constrained w src temp \<longleftrightarrow>
     list_ex (\<lambda>k. is_constrained_to k temp) (constraints (bones w src))"

text \<open>The first loop of the apply path: it reads the scene and changes nothing.\<close>

definition pose_bones_to_bake :: "world \<Rightarrow> obj_id list \<Rightarrow> pose_bone list \<Rightarrow> pose_bone list" where
  "pose_bones_to_bake w armature_objects temps =
     concat (map (\<lambda>temp. filter (\<lambda>src. was_constrained w src temp)
                          (pose_bones_of w armature_objects)) temps)"

text \<open>
  \<^verbatim>\<open>remove_bone_curves\<close>: without animation data nothing happens; with animation data
  but no action, reading \<^verbatim>\<open>action.fcurves\<close> raises; otherwise the keys of the bone go.
\<close>

definition remove_bone_curves :: "pose_bone \<Rightarrow> world \<Rightarrow> world outcome" where
  "remove_bone_curves pb w =
     (case action w (fst pb) of
        None \<Rightarrow> Inr w
      | Some has_action \<Rightarrow>
          if has_action then Inr (w\<lparr>keyframes := filter (\<lambda>k. k_bone k \<noteq> pb) (keyframes w)\<rparr>)
          else Inl (AttributeError ''fcurves'', w))"

text \<open>The innermost body of the removal loop, for one pose bone of an armature object.\<close>

definition release_source ::
  "pose_bone option \<Rightarrow> pose_bone \<Rightarrow> pose_bone \<Rightarrow> pose_bone list \<times> pose_bone option \<times> world
     \<Rightarrow> pose_bone list \<times> pose_bone option \<times> world" where
  "release_source original_active temp src s =
     (case s of (src_bones_to_select, src_bone_to_activate, w) \<Rightarrow>
        if was_constrained w src temp then
          (let w1 = update_bone src
                      (\<lambda>b. b\<lparr>constraints :=
                               filter (\<lambda>k. \<not> is_constrained_to k temp) (constraints b)\<rparr>) w;
               w2 = update_bone src (\<lambda>b. b\<lparr>hide := False\<rparr>) w1
           in (src_bones_to_select @ [src],
               if Some temp = original_active then Some src else src_bone_to_activate, w2))
        else s)"

definition discard_temp_bone ::
  "obj_id list \<Rightarrow> pose_bone option \<Rightarrow> pose_bone
     \<Rightarrow> string list \<times> pose_bone list \<times> pose_bone option \<times> world
     \<Rightarrow> (string list \<times> pose_bone list \<times> pose_bone option \<times> world) outcome" where
  "discard_temp_bone armature_objects original_active temp s =
     (case s of (names_of_bones_to_remove, src_bones_to_select, src_bone_to_activate, w) \<Rightarrow>
        let names = names_of_bones_to_remove @ [snd temp] @
              (case parent (bones w temp) of
                 None \<Rightarrow> []
               | Some pn \<Rightarrow>
                   pn # (case parent (bones w (fst temp, pn)) of None \<Rightarrow> [] | Some gn \<Rightarrow> [gn]))
        in bind (remove_bone_curves temp w)
             (\<lambda>w1. case fold (release_source original_active temp)
                           (pose_bones_of w1 armature_objects)
                           (src_bones_to_select, src_bone_to_activate, w1) of
                      (to_select, to_activate, w2) \<Rightarrow> Inr (names, to_select, to_activate, w2)))"

fun discard_temp_bones ::
  "obj_id list \<Rightarrow> pose_bone option \<Rightarrow> pose_bone list
     \<Rightarrow> string list \<times> pose_bone list \<times> pose_bone option \<times> world
     \<Rightarrow> (string list \<times> pose_bone list \<times> pose_bone option \<times> world) outcome" where
  "discard_temp_bones armature_objects original_active [] s = Inr s"
| "discard_temp_bones armature_objects original_active (temp # rest) s =
     bind (discard_temp_bone armature_objects original_active temp s)
       (discard_temp_bones armature_objects original_active rest)"

fun remove_edit_bones :: "obj_id \<Rightarrow> string list \<Rightarrow> world \<Rightarrow> world outcome" where
  "remove_edit_bones temp_obj [] w = Inr w"
| "remove_edit_bones temp_obj (name # rest) w =
     (if name \<in> set (bone_names w temp_obj)
      then remove_edit_bones temp_obj rest (edit_bones_remove temp_obj name w)
      else Inl (KeyError name, w))"

fun select_source_bones :: "pose_bone list \<Rightarrow> world \<Rightarrow> world outcome" where
  "select_source_bones [] w = Inr w"
| "select_source_bones (src # rest) w =
     (if snd src \<in> set (bone_names w (fst src))
      then select_source_bones rest (update_bone src (\<lambda>b. b\<lparr>select := True\<rparr>) w)
      else Inl (KeyError (snd src), w))"

definition remove_bones_common ::
  "'m host \<Rightarrow> ctx \<Rightarrow> bool \<Rightarrow> int list \<Rightarrow> world \<Rightarrow> world outcome" where
  "remove_bones_common h c do_apply frames w =
     (let original_objects = objects_in_mode c w;
          original_active_pose_bone = active_pose_bone c w;
          armature_objects = get_armature_objects w
      in bind (if do_apply
               then (let to_bake = pose_bones_to_bake w armature_objects (selected_pose_bones c w)
                     in if length to_bake > 0
                        then custom_bake h frames to_bake True True True w
                        else Inr w)
               else Inr w) (\<lambda>w1.
         bind (discard_temp_bones armature_objects original_active_pose_bone
                 (selected_pose_bones c w1) ([], [], None, w1))
           (\<lambda>(names_of_bones_to_remove, src_bones_to_select, src_bone_to_activate, w2).
         bind (mode_set h OBJECT w2) (\<lambda>w3.
           let w4 = fold (\<lambda>ob. select_set ob False) original_objects w3;
               (temp_obj, w5) = get_space_switching_armature_object c w4;
               w6 = (select_set temp_obj True w5)\<lparr>active_object := Some temp_obj\<rparr>
           in bind (mode_set h EDIT w6) (\<lambda>w7.
              bind (remove_edit_bones temp_obj names_of_bones_to_remove w7) (\<lambda>w8.
              bind (mode_set h OBJECT w8) (\<lambda>w9.
                let w10 = fold (\<lambda>ob v. (select_set ob True v)
                              \<lparr>active_bone := (active_bone v)(ob := None)\<rparr>) original_objects w9
                in bind (mode_set h POSE w10) (\<lambda>w11.
                   bind (select_source_bones src_bones_to_select w11) (\<lambda>w12.
                     case src_bone_to_activate of
                       None \<Rightarrow> Inr w12
                     | Some src \<Rightarrow>
                         if snd src \<in> set (bone_names w12 (fst src))
                         then Inr (w12\<lparr>active_object := Some (fst src),
                                      active_bone := (active_bone w12)(fst src := Some (snd src))\<rparr>)
                         else Inl (KeyError (snd src), w12))))))))))"

section \<open>Auxiliary notions for the properties\<close>

text \<open>The keys a run has added to the log.\<close>

definition new_keys :: "world \<Rightarrow> world \<Rightarrow> keyframe list" where
  "new_keys w w' = drop (length (keyframes w)) (keyframes w')"

text \<open>What a baking step may do to the scene: it leaves every bone's connected flag and
  rotation mode alone, only appends to the key log, and appends no location key of a
  connected bone.\<close>

definition bake_step :: "world \<Rightarrow> world \<Rightarrow> bool" where
  "bake_step w w' \<longleftrightarrow>
     (\<forall>b. use_connect (bones w' b) = use_connect (bones w b)) \<and>
     (\<forall>b. rotation_mode (bones w' b) = rotation_mode (bones w b)) \<and>
     (\<exists>ks. keyframes w' = keyframes w @ ks \<and>
           (\<forall>k\<in>set ks. k_path k = ''location'' \<longrightarrow> \<not> use_connect (bones w (k_bone k))))"

text \<open>A step of the keying phase: a baking step that also leaves the time cursor alone.\<close>

definition key_step :: "world \<Rightarrow> world \<Rightarrow> bool" where
  "key_step w w' \<longleftrightarrow> bake_step w w' \<and> frame_current w' = frame_current w"

text \<open>The scene an outcome of the keying loop leaves, raised or returned.\<close>

definition state_world :: "(vec3 option \<times> quat option \<times> world) outcome \<Rightarrow> world" where
  "state_world r = (case r of Inl (e, w) \<Rightarrow> w | Inr (ep, qp, w) \<Rightarrow> w)"

text \<open>A run has keyed the value \<open>v\<close> of a bone's property at a frame.\<close>

definition keyed :: "world \<Rightarrow> world \<Rightarrow> pose_bone \<Rightarrow> string \<Rightarrow> int \<Rightarrow> prop_value \<Rightarrow> bool" where
  "keyed w w' pb path f v \<longleftrightarrow>
     (\<exists>k\<in>set (new_keys w w'). k_bone k = pb \<and> k_path k = path \<and> k_frame k = f \<and> k_value k = v)"


text \<open>A small scene and two hosts, used to run the operations on concrete input: bone
  \<open>Hand\<close> is connected to \<open>Arm\<close>, bone \<open>Leg\<close> is in Euler mode, and the
  failing host refuses every keyframe insertion.\<close>

definition demo_channels :: channels where
  "demo_channels = \<lparr>location = (0, 0, 0), rotation_quaternion = (1, 0, 0, 0),
     rotation_euler = (0, 0, 0), rotation_axis_angle = (0, 0, 1, 0), scale = (1, 1, 1)\<rparr>"

definition demo_display :: display where
  "demo_display = \<lparr>custom_shape = None, custom_shape_translation = (0, 0, 0),
     custom_shape_rotation_euler = (0, 0, 0), custom_shape_scale_xyz = (1, 1, 1),
     custom_shape_transform = None, use_custom_shape_bone_size = True\<rparr>"

definition demo_bone :: bone where
  "demo_bone = \<lparr>parent = None, use_connect = False, use_deform = True, head = (0, 0, 0),
     tail = (0, 1, 0), hide = False, select = False, space_switching_tag = NONE,
     show_wire = False, rotation_mode = QUATERNION, pose = demo_channels,
     shape = demo_display, constraints = []\<rparr>"

definition demo_world :: world where
  "demo_world = \<lparr>frame_current = 1, mode = POSE, active_object = Some ''Rig'',
     objects = [''Rig''], object_type = (\<lambda>ob. ''ARMATURE''), object_select = (\<lambda>ob. ob = ''Rig''),
     show_in_front = (\<lambda>ob. False), armature_name = (\<lambda>ob. ''RigData''),
     bone_names = (\<lambda>ob. if ob = ''Rig'' then [''Arm'', ''Hand'', ''Leg''] else []),
     bones = (\<lambda>pb. if pb = (''Rig'', ''Hand'')
                     then demo_bone\<lparr>parent := Some ''Arm'', use_connect := True\<rparr>
                     else if pb = (''Rig'', ''Leg'') then demo_bone\<lparr>rotation_mode := XYZ\<rparr>
                     else demo_bone),
     active_bone = (\<lambda>ob. None), action = (\<lambda>ob. None), keyframes = [], next_id = 0\<rparr>"

definition demo_host :: "channels host" where
  "demo_host = \<lparr>
     visual_local = (\<lambda>w pb. demo_channels\<lparr>
        location := (of_int (frame_current w), 0, 0),
        rotation_quaternion := (if even (frame_current w) then (1, 0, 0, 0) else (- 1, 0, 0, 0)),
        rotation_euler := (2 * pi * of_int (frame_current w), 0, 0)\<rparr>),
     evaluated_pose = (\<lambda>w pb. pose (bones w pb)),
     m_location = location, m_scale = scale, m_quaternion = rotation_quaternion,
     m_axis_angle = rotation_axis_angle, m_euler = (\<lambda>md. rotation_euler),
     keyframe_insert_fails = (\<lambda>w pb path f. False),
     mode_set_fails = (\<lambda>w m. False),
     unique_name = (\<lambda>names n. if n \<in> set names then n @ concat names else n),
     format = (\<lambda>t b a ob. b @ drop 11 t)\<rparr>"

definition failing_host :: "channels host" where
  "failing_host = demo_host\<lparr>keyframe_insert_fails := (\<lambda>w pb path f. True)\<rparr>"

text \<open>Repeated invocation: one run of \<open>custom_bake\<close> per frame range, in order.\<close>

fun bake_repeatedly ::
  "'m host \<Rightarrow> int list list \<Rightarrow> pose_bone list \<Rightarrow> bool \<Rightarrow> bool \<Rightarrow> bool \<Rightarrow> world \<Rightarrow> world outcome" where
  "bake_repeatedly h [] pbs dl dr ds w = Inr w"
| "bake_repeatedly h (frames # runs) pbs dl dr ds w =
     bind (custom_bake h frames pbs dl dr ds w) (bake_repeatedly h runs pbs dl dr ds)"

text \<open>The frames at which a run has keyed the location of a bone, in the order of the log.\<close>

definition location_frames :: "world \<Rightarrow> world \<Rightarrow> pose_bone \<Rightarrow> int list" where
  "location_frames w w' pb =
     map k_frame (filter (\<lambda>k. k_bone k = pb \<and> k_path k = ''location'') (new_keys w w'))"



text \<open>A concrete context: the selection and the active bone are read from the scene.\<close>

definition demo_ctx :: ctx where
  "demo_ctx = \<lparr>
     objects_in_mode = (\<lambda>w. filter (object_select w) (objects w)),
     selected_pose_bones = (\<lambda>w. filter (\<lambda>pb. select (bones w pb))
        (concat (map (\<lambda>ob. map (Pair ob) (bone_names w ob)) (objects w)))),
     active_pose_bone = (\<lambda>w. case active_object w of
        None \<Rightarrow> None | Some ob \<Rightarrow> map_option (Pair ob) (active_bone w ob)),
     object_name = ''SpaceSwitching'', prefs_armature_name = ''SpaceSwitchingArmature'',
     copy_name = ''{bone_name}_Copy'', parent_name = ''{bone_name}_Parent'',
     space_name = ''{bone_name}_Space''\<rparr>"

section \<open>Properties of custom_bake\<close>

lemma bind_Inr [simp]: "bind (Inr x) f = f x"
  by (simp add: bind_def)

lemma bind_Inl [simp]: "bind (Inl e) f = Inl e"
  by (simp add: bind_def)

lemma final_world_simps [simp]: "final_world (Inr w) = w" "final_world (Inl (e, w)) = w"
  by (simp_all add: final_world_def)

lemma bake_step_refl: "bake_step w w"
  by (simp add: bake_step_def)

lemma bake_step_trans: "bake_step w w1 \<Longrightarrow> bake_step w1 w2 \<Longrightarrow> bake_step w w2"
  unfolding bake_step_def by (elim conjE exE) (auto)

lemma bake_step_set_matrix_basis: "bake_step w (set_matrix_basis h pb m w)"
  by (simp add: bake_step_def set_matrix_basis_def update_bone_def apply_matrix_def Let_def)

lemma bake_step_update_pose:
  "bake_step w (update_bone pb (\<lambda>b. b\<lparr>pose := g b\<rparr>) w)"
  by (simp add: bake_step_def update_bone_def)

lemma bake_step_keyframe_insert:
  assumes "path = ''location'' \<longrightarrow> \<not> use_connect (bones w pb)"
  shows "bake_step w (final_world (keyframe_insert h pb path frame grp w))"
  using assms by (simp add: bake_step_def keyframe_insert_def)

lemma bake_step_view_layer_update: "bake_step w (view_layer_update h w)"
  by (simp add: bake_step_def view_layer_update_def)

lemma bake_step_frame_set: "bake_step w (frame_set h f w)"
  by (simp add: bake_step_def frame_set_def view_layer_update_def)

lemma state_world_simps [simp]:
  "state_world (Inr (ep, qp, w)) = w" "state_world (Inl (e, w)) = w"
  by (simp_all add: state_world_def)

lemma keyframe_insert_cases:
  obtains (fail) "keyframe_insert h pb path frame grp w = Inl (HostError ''keyframe_insert'', w)"
  | (ok) w' where "keyframe_insert h pb path frame grp w = Inr w'"
      and "bones w' = bones w"
      and "keyframes w' = keyframes w @
             [\<lparr>k_bone = pb, k_path = path, k_frame = frame, k_group = grp,
               k_value = property_value path (bones w pb)\<rparr>]"
  by (cases "keyframe_insert_fails h w pb path frame") (simp_all add: keyframe_insert_def)

lemma bake_step_bind_key:
  assumes "bake_step w0 w"
    and "path = ''location'' \<longrightarrow> \<not> use_connect (bones w pb)"
  shows "bake_step w0 (state_world (bind (keyframe_insert h pb path frame grp w) (\<lambda>w2. Inr (f w2, g w2, w2))))"
proof (cases rule: keyframe_insert_cases [of h pb path frame grp w])
  case fail
  then show ?thesis using assms by simp
next
  case (ok w')
  have "bake_step w w'"
    using bake_step_keyframe_insert [OF assms(2), of h frame grp] ok(1) by simp
  then show ?thesis using ok(1) assms(1) by (simp add: bake_step_trans)
qed

lemma bake_step_bake_rotation:
  "bake_step w (state_world (bake_rotation h pb frame (ep, qp, w)))"
proof -
  have nl: "''rotation_quaternion'' \<noteq> ''location''" "''rotation_axis_angle'' \<noteq> ''location''"
    "''rotation_euler'' \<noteq> ''location''" by simp_all
  show ?thesis
    unfolding bake_rotation_def
    by (auto simp: Let_def nl split: option.splits
        intro!: bake_step_bind_key bake_step_refl bake_step_update_pose)
qed

lemma bake_step_bake_frame:
  "bake_step w (state_world (bake_frame h dl dr ds pb m frame (ep, qp, w)))"
proof -
  let ?w1 = "set_matrix_basis h pb m w"
  have s1: "bake_step w ?w1" by (rule bake_step_set_matrix_basis)
  define r1 where "r1 = (if dl \<and> \<not> use_connect (bones ?w1 pb)
                 then keyframe_insert h pb ''location'' frame (snd pb) ?w1 else Inr ?w1)"
  have s2: "bake_step w (final_world r1)"
  proof (cases "dl \<and> \<not> use_connect (bones ?w1 pb)")
    case True
    then have "bake_step ?w1 (final_world r1)"
      unfolding r1_def using bake_step_keyframe_insert [of "''location''" ?w1 pb h frame "snd pb"]
      by simp
    with s1 show ?thesis by (rule bake_step_trans)
  next
    case False
    then show ?thesis using s1 by (auto simp: r1_def)
  qed
  have rest: "bake_step w (state_world
      (bind (if dr then bake_rotation h pb frame (ep, qp, w2) else Inr (ep, qp, w2))
        (\<lambda>(ep, qp, w3).
           bind (if ds then keyframe_insert h pb ''scale'' frame (snd pb) w3 else Inr w3)
             (\<lambda>w4. Inr (ep, qp, w4)))))" if w2: "bake_step w w2" for w2
  proof -
    define r2 where "r2 = (if dr then bake_rotation h pb frame (ep, qp, w2) else Inr (ep, qp, w2))"
    have s3: "bake_step w (state_world r2)"
      unfolding r2_def using w2 bake_step_bake_rotation [of w2 h pb frame ep qp]
      by (auto intro: bake_step_trans)
    show ?thesis
    proof (cases r2)
      case (Inl a)
      then show ?thesis using s3 unfolding r2_def [symmetric] by (cases a) simp
    next
      case (Inr b)
      obtain ep' qp' w3 where b: "b = (ep', qp', w3)" by (cases b) auto
      have sc: "''scale'' = ''location'' \<longrightarrow> \<not> use_connect (bones w3 pb)" by simp
      have w3: "bake_step w w3" using s3 Inr b by simp
      show ?thesis
        unfolding r2_def [symmetric] Inr b
        using bake_step_bind_key [OF w3 sc, of h frame "snd pb" "\<lambda>_. ep'" "\<lambda>_. qp'"] w3
        by (cases ds) simp_all
    qed
  qed
  show ?thesis
  proof (cases r1)
    case (Inl a)
    then show ?thesis using s2 unfolding bake_frame_def
      by (cases a) (simp add: Let_def r1_def [symmetric])
  next
    case (Inr w2)
    then show ?thesis using s2 rest [of w2] unfolding bake_frame_def
      by (simp add: Let_def r1_def [symmetric])
  qed
qed

lemma bake_step_bake_frames:
  "bake_step w (state_world (bake_frames h dl dr ds pb xs (ep, qp, w)))"
proof (induction xs arbitrary: ep qp w)
  case Nil
  then show ?case by (simp add: bake_step_refl)
next
  case (Cons x xs)
  obtain m frame where x: "x = (m, frame)" by (cases x) auto
  show ?case
  proof (cases "bake_frame h dl dr ds pb m frame (ep, qp, w)")
    case (Inl a)
    then show ?thesis using bake_step_bake_frame [of w h dl dr ds pb m frame ep qp] x
      by (cases a) simp
  next
    case (Inr b)
    obtain ep' qp' w1 where b: "b = (ep', qp', w1)" by (cases b) auto
    have "bake_step w w1"
      using bake_step_bake_frame [of w h dl dr ds pb m frame ep qp] Inr b by simp
    then show ?thesis using Cons.IH [of w1 ep' qp'] Inr b x
      by (auto intro: bake_step_trans)
  qed
qed

lemma bake_step_bake_bones:
  "bake_step w (final_world (bake_bones h dl dr ds frames xs w))"
proof (induction xs arbitrary: w)
  case Nil
  then show ?case by (simp add: bake_step_refl)
next
  case (Cons x xs)
  obtain pb row where x: "x = (pb, row)" by (cases x) auto
  show ?case
  proof (cases "bake_frames h dl dr ds pb (zip row frames) (None, None, w)")
    case (Inl a)
    then show ?thesis
      using bake_step_bake_frames [of w h dl dr ds pb "zip row frames" None None] x
      by (cases a) simp
  next
    case (Inr b)
    obtain ep' qp' w1 where b: "b = (ep', qp', w1)" by (cases b) auto
    have "bake_step w w1"
      using bake_step_bake_frames [of w h dl dr ds pb "zip row frames" None None] Inr b by simp
    then show ?thesis using Cons.IH [of w1] Inr b x
      by (auto intro: bake_step_trans)
  qed
qed

lemma bake_step_sample_frames:
  "bake_step w (snd (sample_frames h pbs frames info w))"
proof (induction frames arbitrary: info w)
  case Nil
  then show ?case by (simp add: bake_step_refl)
next
  case (Cons f fs)
  have "bake_step w (view_layer_update h (frame_set h f w))"
    by (rule bake_step_trans [OF bake_step_frame_set bake_step_view_layer_update])
  then show ?case using Cons.IH
    by (auto simp: Let_def intro: bake_step_trans)
qed

lemma bake_step_custom_bake:
  "bake_step w (final_world (custom_bake h frames pbs dl dr ds w))"
proof (cases "\<not> dl \<and> \<not> dr \<and> \<not> ds")
  case True
  then show ?thesis by (simp add: custom_bake_def bake_step_refl)
next
  case False
  obtain info w1 where sf: "sample_frames h pbs frames (replicate (length pbs) []) w = (info, w1)"
    by (cases "sample_frames h pbs frames (replicate (length pbs) []) w") auto
  have s1: "bake_step w w1"
    using bake_step_sample_frames [of w h pbs frames "replicate (length pbs) []"] sf by simp
  show ?thesis
  proof (cases "bake_bones h dl dr ds frames (zip pbs info) w1")
    case (Inl a)
    then show ?thesis
      using bake_step_bake_bones [of w1 h dl dr ds frames "zip pbs info"] s1 False sf
      by (cases a) (auto simp: custom_bake_def intro: bake_step_trans)
  next
    case (Inr w2)
    have "bake_step w1 w2"
      using bake_step_bake_bones [of w1 h dl dr ds frames "zip pbs info"] Inr by simp
    then have "bake_step w (frame_set h (frame_current w) w2)"
      using s1 bake_step_frame_set by (blast intro: bake_step_trans)
    then show ?thesis using False sf Inr by (auto simp: custom_bake_def)
  qed
qed

lemma bake_step_keys: "bake_step w w' \<Longrightarrow> keyframes w' = keyframes w @ new_keys w w'"
  by (auto simp: bake_step_def new_keys_def)

lemma keyed_mono:
  assumes "bake_step w w1" "bake_step w1 w2" "bake_step w2 w3" "keyed w1 w2 pb path f v"
  shows "keyed w w3 pb path f v"
proof -
  have "keyframes w3 = keyframes w @ (new_keys w w1 @ new_keys w1 w2 @ new_keys w2 w3)"
    using assms(1-3) by (simp add: bake_step_keys)
  then have "new_keys w w3 = new_keys w w1 @ new_keys w1 w2 @ new_keys w2 w3"
    unfolding new_keys_def [of w w3] by simp
  then show ?thesis using assms(4) by (auto simp: keyed_def)
qed

lemma keyed_keyframe_insert:
  assumes "keyframe_insert h pb path frame grp w = Inr w'"
  shows "keyed w w' pb path frame (property_value path (bones w pb))" "bones w' = bones w"
  using assms by (auto simp: keyframe_insert_def keyed_def new_keys_def split: if_splits)

lemma bake_step_Inr_key:
  "keyframe_insert h pb path frame grp w = Inr w' \<Longrightarrow> path \<noteq> ''location'' \<Longrightarrow> bake_step w w'"
  using bake_step_keyframe_insert [of path w pb h frame grp] by simp






lemma key_step_refl: "key_step w w"
  by (simp add: key_step_def bake_step_refl)

lemma key_step_trans: "key_step w w1 \<Longrightarrow> key_step w1 w2 \<Longrightarrow> key_step w w2"
  unfolding key_step_def by (auto intro: bake_step_trans)

lemma key_step_set_matrix_basis: "key_step w (set_matrix_basis h pb m w)"
  unfolding key_step_def
  by (rule conjI [OF bake_step_set_matrix_basis]) (simp add: set_matrix_basis_def update_bone_def)

lemma key_step_update_pose:
  "key_step w (update_bone pb (\<lambda>b. b\<lparr>pose := g b\<rparr>) w)"
  unfolding key_step_def
  by (rule conjI [OF bake_step_update_pose]) (simp add: update_bone_def)

lemma key_step_keyframe_insert:
  assumes "path = ''location'' \<longrightarrow> \<not> use_connect (bones w pb)"
  shows "key_step w (final_world (keyframe_insert h pb path frame grp w))"
  unfolding key_step_def
  by (rule conjI [OF bake_step_keyframe_insert [OF assms]]) (simp add: keyframe_insert_def)

lemma key_step_bind_key:
  assumes "key_step w0 w"
    and "path = ''location'' \<longrightarrow> \<not> use_connect (bones w pb)"
  shows "key_step w0 (state_world (bind (keyframe_insert h pb path frame grp w) (\<lambda>w2. Inr (f w2, g w2, w2))))"
proof (cases rule: keyframe_insert_cases [of h pb path frame grp w])
  case fail
  then show ?thesis using assms by simp
next
  case (ok w')
  have "key_step w w'"
    using key_step_keyframe_insert [OF assms(2), of h frame grp] ok(1) by simp
  then show ?thesis using ok(1) assms(1) by (simp add: key_step_trans)
qed

lemma key_step_bake_rotation:
  "key_step w (state_world (bake_rotation h pb frame (ep, qp, w)))"
proof -
  have nl: "''rotation_quaternion'' \<noteq> ''location''" "''rotation_axis_angle'' \<noteq> ''location''"
    "''rotation_euler'' \<noteq> ''location''" by simp_all
  show ?thesis
    unfolding bake_rotation_def
    by (auto simp: Let_def nl split: option.splits
        intro!: key_step_bind_key key_step_refl key_step_update_pose)
qed

lemma key_step_bake_frame:
  "key_step w (state_world (bake_frame h dl dr ds pb m frame (ep, qp, w)))"
proof -
  let ?w1 = "set_matrix_basis h pb m w"
  have s1: "key_step w ?w1" by (rule key_step_set_matrix_basis)
  define r1 where "r1 = (if dl \<and> \<not> use_connect (bones ?w1 pb)
                 then keyframe_insert h pb ''location'' frame (snd pb) ?w1 else Inr ?w1)"
  have s2: "key_step w (final_world r1)"
  proof (cases "dl \<and> \<not> use_connect (bones ?w1 pb)")
    case True
    then have "key_step ?w1 (final_world r1)"
      unfolding r1_def using key_step_keyframe_insert [of "''location''" ?w1 pb h frame "snd pb"]
      by simp
    with s1 show ?thesis by (rule key_step_trans)
  next
    case False
    then show ?thesis using s1 by (auto simp: r1_def)
  qed
  have rest: "key_step w (state_world
      (bind (if dr then bake_rotation h pb frame (ep, qp, w2) else Inr (ep, qp, w2))
        (\<lambda>(ep, qp, w3).
           bind (if ds then keyframe_insert h pb ''scale'' frame (snd pb) w3 else Inr w3)
             (\<lambda>w4. Inr (ep, qp, w4)))))" if w2: "key_step w w2" for w2
  proof -
    define r2 where "r2 = (if dr then bake_rotation h pb frame (ep, qp, w2) else Inr (ep, qp, w2))"
    have s3: "key_step w (state_world r2)"
      unfolding r2_def using w2 key_step_bake_rotation [of w2 h pb frame ep qp]
      by (auto intro: key_step_trans)
    show ?thesis
    proof (cases r2)
      case (Inl a)
      then show ?thesis using s3 unfolding r2_def [symmetric] by (cases a) simp
    next
      case (Inr b)
      obtain ep' qp' w3 where b: "b = (ep', qp', w3)" by (cases b) auto
      have sc: "''scale'' = ''location'' \<longrightarrow> \<not> use_connect (bones w3 pb)" by simp
      have w3: "key_step w w3" using s3 Inr b by simp
      show ?thesis
        unfolding r2_def [symmetric] Inr b
        using key_step_bind_key [OF w3 sc, of h frame "snd pb" "\<lambda>_. ep'" "\<lambda>_. qp'"] w3
        by (cases ds) simp_all
    qed
  qed
  show ?thesis
  proof (cases r1)
    case (Inl a)
    then show ?thesis using s2 unfolding bake_frame_def
      by (cases a) (simp add: Let_def r1_def [symmetric])
  next
    case (Inr w2)
    then show ?thesis using s2 rest [of w2] unfolding bake_frame_def
      by (simp add: Let_def r1_def [symmetric])
  qed
qed

lemma key_step_bake_frames:
  "key_step w (state_world (bake_frames h dl dr ds pb xs (ep, qp, w)))"
proof (induction xs arbitrary: ep qp w)
  case Nil
  then show ?case by (simp add: key_step_refl)
next
  case (Cons x xs)
  obtain m frame where x: "x = (m, frame)" by (cases x) auto
  show ?case
  proof (cases "bake_frame h dl dr ds pb m frame (ep, qp, w)")
    case (Inl a)
    then show ?thesis using key_step_bake_frame [of w h dl dr ds pb m frame ep qp] x
      by (cases a) simp
  next
    case (Inr b)
    obtain ep' qp' w1 where b: "b = (ep', qp', w1)" by (cases b) auto
    have "key_step w w1"
      using key_step_bake_frame [of w h dl dr ds pb m frame ep qp] Inr b by simp
    then show ?thesis using Cons.IH [of w1 ep' qp'] Inr b x
      by (auto intro: key_step_trans)
  qed
qed

lemma key_step_bake_bones:
  "key_step w (final_world (bake_bones h dl dr ds frames xs w))"
proof (induction xs arbitrary: w)
  case Nil
  then show ?case by (simp add: key_step_refl)
next
  case (Cons x xs)
  obtain pb row where x: "x = (pb, row)" by (cases x) auto
  show ?case
  proof (cases "bake_frames h dl dr ds pb (zip row frames) (None, None, w)")
    case (Inl a)
    then show ?thesis
      using key_step_bake_frames [of w h dl dr ds pb "zip row frames" None None] x
      by (cases a) simp
  next
    case (Inr b)
    obtain ep' qp' w1 where b: "b = (ep', qp', w1)" by (cases b) auto
    have "key_step w w1"
      using key_step_bake_frames [of w h dl dr ds pb "zip row frames" None None] Inr b by simp
    then show ?thesis using Cons.IH [of w1] Inr b x
      by (auto intro: key_step_trans)
  qed
qed


lemma bake_bones_no_frames: "bake_bones h dl dr ds [] xs w = Inr w"
  by (induction xs arbitrary: w) auto

lemma sample_frames_cursor:
  "frames \<noteq> [] \<Longrightarrow> frame_current (snd (sample_frames h pbs frames info w)) = last frames"
proof (induction frames arbitrary: info w)
  case Nil
  then show ?case by simp
next
  case (Cons f fs)
  show ?case
  proof (cases "fs = []")
    case True
    then show ?thesis by (simp add: Let_def frame_set_def view_layer_update_def)
  next
    case False
    then show ?thesis using Cons.IH by (simp add: Let_def)
  qed
qed

text \<open>
  C1. With the Location, Rotation and Scale flags all disabled, \<open>custom_bake\<close> raises
  \<open>ValueError\<close> for every frame sequence and every list of pose bones, and the scene
  it leaves is the scene it was given: nothing was sampled, keyed, or moved in time.
\<close>

theorem custom_bake_no_channels:
  "custom_bake h frames pose_bones False False False w =
     Inl (ValueError ''No channels enabled'', w)"
  by (simp add: custom_bake_def)

text \<open>
  C2 (as amended). Whenever \<open>custom_bake\<close> returns, the time cursor has the value it
  had on entry. The restoration is the last statement of the function and is not
  protected: whenever a run with at least one channel enabled raises, the frame
  sequence is not empty and the cursor is left at the last frame that was sampled.
\<close>

theorem custom_bake_restores_frame:
  "(custom_bake h frames pose_bones do_location do_rotation do_scale w = Inr w'
      \<longrightarrow> frame_current w' = frame_current w) \<and>
   (custom_bake h frames pose_bones do_location do_rotation do_scale w = Inl (e, w'') \<and>
      (do_location \<or> do_rotation \<or> do_scale)
      \<longrightarrow> frames \<noteq> [] \<and> frame_current w'' = last frames)"
proof -
  obtain info w1 where sf:
    "sample_frames h pose_bones frames (replicate (length pose_bones) []) w = (info, w1)"
    by (cases "sample_frames h pose_bones frames (replicate (length pose_bones) []) w") auto
  let ?r = "bake_bones h do_location do_rotation do_scale frames (zip pose_bones info) w1"
  have restored: "frame_current w' = frame_current w"
    if "custom_bake h frames pose_bones do_location do_rotation do_scale w = Inr w'"
    using that sf
    by (cases ?r) (auto simp: custom_bake_def frame_set_def view_layer_update_def Let_def
        split: if_splits)
  have left: "frames \<noteq> [] \<and> frame_current w'' = last frames"
    if r: "custom_bake h frames pose_bones do_location do_rotation do_scale w = Inl (e, w'')"
      and fl: "do_location \<or> do_rotation \<or> do_scale"
  proof -
    have cb: "custom_bake h frames pose_bones do_location do_rotation do_scale w =
        bind ?r (\<lambda>w2. Inr (frame_set h (frame_current w) w2))"
      using fl sf by (auto simp: custom_bake_def Let_def)
    have bl: "?r = Inl (e, w'')"
      using r unfolding cb by (cases ?r) simp_all
    have ne: "frames \<noteq> []"
    proof
      assume "frames = []"
      then have "?r = Inr w1" by (simp add: bake_bones_no_frames)
      with bl show False by simp
    qed
    have "key_step w1 (final_world ?r)" by (rule key_step_bake_bones)
    then have "frame_current w'' = frame_current w1" using bl by (simp add: key_step_def)
    moreover have "frame_current w1 = last frames"
      using sample_frames_cursor [OF ne, of h pose_bones "replicate (length pose_bones) []" w] sf
      by simp
    ultimately show ?thesis using ne by simp
  qed
  show ?thesis using restored left by blast
qed

theorem custom_bake_failed_write_counterexample:
  "isl (custom_bake failing_host [5] [(''Rig'', ''Arm'')] True True True demo_world) \<and>
   frame_current (final_world
     (custom_bake failing_host [5] [(''Rig'', ''Arm'')] True True True demo_world)) = 5 \<and>
   frame_current demo_world = 1"
  by (simp add: custom_bake_def failing_host_def demo_host_def demo_world_def bake_frame_def
      bake_rotation_def keyframe_insert_def set_matrix_basis_def update_bone_def apply_matrix_def
      frame_set_def view_layer_update_def demo_bone_def demo_channels_def Let_def)

theorem custom_bake_restores_frame_witness:
  "frame_current (final_world
     (custom_bake demo_host [5, 6] [(''Rig'', ''Arm'')] True True True demo_world)) = 1 \<and>
   frame_current (final_world
     (custom_bake failing_host [5, 6] [(''Rig'', ''Arm'')] True True True demo_world)) = 6"
proof -
  have "\<exists>w'. custom_bake demo_host [5, 6] [(''Rig'', ''Arm'')] True True True demo_world = Inr w'"
    by (simp add: custom_bake_def demo_host_def demo_world_def bake_frame_def
      bake_rotation_def keyframe_insert_def set_matrix_basis_def update_bone_def apply_matrix_def
      frame_set_def view_layer_update_def demo_bone_def demo_channels_def Let_def)
  then obtain w' where
    r: "custom_bake demo_host [5, 6] [(''Rig'', ''Arm'')] True True True demo_world = Inr w'"
    by blast
  have "\<exists>e w''. custom_bake failing_host [5, 6] [(''Rig'', ''Arm'')] True True True demo_world
      = Inl (e, w'')"
    by (simp add: custom_bake_def failing_host_def demo_host_def demo_world_def bake_frame_def
      bake_rotation_def keyframe_insert_def set_matrix_basis_def update_bone_def apply_matrix_def
      frame_set_def view_layer_update_def demo_bone_def demo_channels_def Let_def)
  then obtain e w'' where
    l: "custom_bake failing_host [5, 6] [(''Rig'', ''Arm'')] True True True demo_world
      = Inl (e, w'')"
    by blast
  have a: "frame_current w' = frame_current demo_world"
    using custom_bake_restores_frame [of demo_host "[5, 6]" "[(''Rig'', ''Arm'')]" True True True
        demo_world w'] r by blast
  have b: "frame_current w'' = last [5, 6]"
    using custom_bake_restores_frame [of failing_host "[5, 6]" "[(''Rig'', ''Arm'')]" True True True
        demo_world _ e w''] l by blast
  show ?thesis using a b r l by (simp add: demo_world_def)
qed

lemma bindE:
  assumes "bind r f = Inr y"
  obtains x where "r = Inr x" "f x = Inr y"
  using assms by (cases r) (simp_all add: bind_def)

lemma bake_step_connect: "bake_step w w' \<Longrightarrow> use_connect (bones w' b) = use_connect (bones w b)"
  unfolding bake_step_def by blast


lemma bake_step_bake_repeatedly:
  "bake_step w (final_world (bake_repeatedly h runs pbs dl dr ds w))"
proof (induction runs arbitrary: w)
  case Nil
  then show ?case by (simp add: bake_step_refl)
next
  case (Cons frames runs)
  show ?case
  proof (cases "custom_bake h frames pbs dl dr ds w")
    case (Inl a)
    then show ?thesis using bake_step_custom_bake [of w h frames pbs dl dr ds]
      by (cases a) simp
  next
    case (Inr w1)
    then have "bake_step w w1" using bake_step_custom_bake [of w h frames pbs dl dr ds] by simp
    then show ?thesis using Cons.IH [of w1] Inr by (auto intro: bake_step_trans)
  qed
qed

lemma bake_step_location_frames:
  assumes "bake_step w w'" "use_connect (bones w pb)"
  shows "location_frames w w' pb = []"
proof -
  have "\<forall>k\<in>set (new_keys w w'). \<not> (k_bone k = pb \<and> k_path k = ''location'')"
    using assms unfolding bake_step_def new_keys_def by auto
  then show ?thesis by (simp add: location_frames_def filter_empty_conv)
qed

lemma keyed_location_frames:
  "keyed w w' pb ''location'' f v \<Longrightarrow> f \<in> set (location_frames w w' pb)"
  by (auto simp: keyed_def location_frames_def)

lemma bake_frame_Inr_step:
  "bake_frame h dl dr ds pb m f (ep, qp, w) = Inr (ep', qp', w') \<Longrightarrow> bake_step w w'"
  using bake_step_bake_frame [of w h dl dr ds pb m f ep qp] by simp

lemma bake_frames_Inr_step:
  "bake_frames h dl dr ds pb xs (ep, qp, w) = Inr (ep', qp', w') \<Longrightarrow> bake_step w w'"
  using bake_step_bake_frames [of w h dl dr ds pb xs ep qp] by simp

lemma bake_bones_Inr_step:
  "bake_bones h dl dr ds frames xs w = Inr w' \<Longrightarrow> bake_step w w'"
  using bake_step_bake_bones [of w h dl dr ds frames xs] by simp

lemma bake_rotation_Inr_step:
  "bake_rotation h pb f (ep, qp, w) = Inr (ep', qp', w') \<Longrightarrow> bake_step w w'"
  using bake_step_bake_rotation [of w h pb f ep qp] by simp

text \<open>The stages of one successful pass through the keying loop's body.\<close>

lemma bake_frame_stages:
  assumes "bake_frame h dl dr ds pb m f (ep, qp, w) = Inr (ep', qp', w')"
  obtains w2 w3 where
    "(if dl \<and> \<not> use_connect (bones w pb)
      then keyframe_insert h pb ''location'' f (snd pb) (set_matrix_basis h pb m w)
      else Inr (set_matrix_basis h pb m w)) = Inr w2"
    "(if dr then bake_rotation h pb f (ep, qp, w2) else Inr (ep, qp, w2)) = Inr (ep', qp', w3)"
    "(if ds then keyframe_insert h pb ''scale'' f (snd pb) w3 else Inr w3) = Inr w'"
proof -
  let ?w1 = "set_matrix_basis h pb m w"
  have c: "use_connect (bones ?w1 pb) = use_connect (bones w pb)"
    using bake_step_connect [OF bake_step_set_matrix_basis] .
  define r1 where "r1 = (if dl \<and> \<not> use_connect (bones w pb)
         then keyframe_insert h pb ''location'' f (snd pb) ?w1 else Inr ?w1)"
  define r2 where "r2 = (\<lambda>w2. if dr then bake_rotation h pb f (ep, qp, w2) else Inr (ep, qp, w2))"
  define r3 where "r3 = (\<lambda>w3. if ds then keyframe_insert h pb ''scale'' f (snd pb) w3 else Inr w3)"
  have bf: "bake_frame h dl dr ds pb m f (ep, qp, w) =
      bind r1 (\<lambda>w2. bind (r2 w2) (\<lambda>(ep, qp, w3). bind (r3 w3) (\<lambda>w4. Inr (ep, qp, w4))))"
    unfolding bake_frame_def r1_def r2_def r3_def by (simp add: Let_def c)
  from assms [unfolded bf] obtain w2 where a0: "r1 = Inr w2"
    and b0: "bind (r2 w2) (\<lambda>(ep, qp, w3). bind (r3 w3) (\<lambda>w4. Inr (ep, qp, w4))) = Inr (ep', qp', w')"
    by (rule bindE)
  from b0 obtain s where r0: "r2 w2 = Inr s"
    and d0: "(case s of (ep, qp, w3) \<Rightarrow> bind (r3 w3) (\<lambda>w4. Inr (ep, qp, w4))) = Inr (ep', qp', w')"
    by (rule bindE)
  obtain ep1 qp1 w3 where s: "s = (ep1, qp1, w3)" by (cases s) auto
  from d0 have d1: "bind (r3 w3) (\<lambda>w4. Inr (ep1, qp1, w4)) = Inr (ep', qp', w')"
    unfolding s by simp
  from d1 obtain w4 where k0: "r3 w3 = Inr w4"
    and e0: "Inr (ep1, qp1, w4) = (Inr (ep', qp', w') :: (vec3 option \<times> quat option \<times> world) outcome)"
    by (rule bindE)
  have e: "ep1 = ep'" "qp1 = qp'" "w4 = w'" using e0 by simp_all
  show ?thesis
  proof (rule that [of w2 w3])
    show "(if dl \<and> \<not> use_connect (bones w pb)
      then keyframe_insert h pb ''location'' f (snd pb) (set_matrix_basis h pb m w)
      else Inr (set_matrix_basis h pb m w)) = Inr w2"
      using a0 unfolding r1_def .
    show "(if dr then bake_rotation h pb f (ep, qp, w2) else Inr (ep, qp, w2)) = Inr (ep', qp', w3)"
      using r0 unfolding r2_def s e .
    show "(if ds then keyframe_insert h pb ''scale'' f (snd pb) w3 else Inr w3) = Inr w'"
      using k0 unfolding r3_def e .
  qed
qed

lemma stage_location_step:
  assumes "(if dl \<and> \<not> use_connect (bones w pb)
      then keyframe_insert h pb ''location'' f (snd pb) (set_matrix_basis h pb m w)
      else Inr (set_matrix_basis h pb m w)) = Inr w2"
  shows "bake_step (set_matrix_basis h pb m w) w2" "bones w2 = bones (set_matrix_basis h pb m w)"
proof -
  let ?w1 = "set_matrix_basis h pb m w"
  have c: "use_connect (bones ?w1 pb) = use_connect (bones w pb)"
    using bake_step_connect [OF bake_step_set_matrix_basis] .
  show "bake_step ?w1 w2"
  proof (cases "dl \<and> \<not> use_connect (bones w pb)")
    case True
    then have k: "keyframe_insert h pb ''location'' f (snd pb) ?w1 = Inr w2" using assms by simp
    have "''location'' = ''location'' \<longrightarrow> \<not> use_connect (bones ?w1 pb)" using True c by simp
    from bake_step_keyframe_insert [OF this, of h f "snd pb"] k show ?thesis by simp
  next
    case False
    then have "w2 = ?w1" using assms by auto
    then show ?thesis by (simp add: bake_step_refl)
  qed
  show "bones w2 = bones ?w1"
  proof (cases "dl \<and> \<not> use_connect (bones w pb)")
    case True
    then have "keyframe_insert h pb ''location'' f (snd pb) ?w1 = Inr w2" using assms by simp
    then show ?thesis by (rule keyed_keyframe_insert(2))
  next
    case False
    then have "w2 = ?w1" using assms by auto
    then show ?thesis by simp
  qed
qed

lemma stage_rotation_step:
  assumes "(if dr then bake_rotation h pb f (ep, qp, w2) else Inr (ep, qp, w2)) = Inr (ep', qp', w3)"
  shows "bake_step w2 w3"
proof (cases dr)
  case True
  then have "bake_rotation h pb f (ep, qp, w2) = Inr (ep', qp', w3)" using assms by simp
  then show ?thesis by (rule bake_rotation_Inr_step)
next
  case False
  then show ?thesis using assms by (simp add: bake_step_refl)
qed

lemma stage_scale_step:
  assumes "(if ds then keyframe_insert h pb ''scale'' f (snd pb) w3 else Inr w3) = Inr w'"
  shows "bake_step w3 w'"
proof (cases ds)
  case True
  then have "keyframe_insert h pb ''scale'' f (snd pb) w3 = Inr w'" using assms by simp
  then show ?thesis by (rule bake_step_Inr_key) simp
next
  case False
  then show ?thesis using assms by (simp add: bake_step_refl)
qed

lemma bake_frame_keys_location:
  assumes "bake_frame h True dr ds pb m f (ep, qp, w) = Inr (ep', qp', w')"
    and "\<not> use_connect (bones w pb)"
  shows "keyed w w' pb ''location'' f (V3 (m_location h m))"
proof -
  let ?w1 = "set_matrix_basis h pb m w"
  from assms(1) obtain w2 w3 where
    a: "(if True \<and> \<not> use_connect (bones w pb)
        then keyframe_insert h pb ''location'' f (snd pb) ?w1 else Inr ?w1) = Inr w2"
    and b: "(if dr then bake_rotation h pb f (ep, qp, w2) else Inr (ep, qp, w2)) = Inr (ep', qp', w3)"
    and c: "(if ds then keyframe_insert h pb ''scale'' f (snd pb) w3 else Inr w3) = Inr w'"
    by (rule bake_frame_stages)
  from a assms(2) have k: "keyframe_insert h pb ''location'' f (snd pb) ?w1 = Inr w2" by simp
  have v: "property_value ''location'' (bones ?w1 pb) = V3 (m_location h m)"
    by (simp add: property_value_def set_matrix_basis_def update_bone_def apply_matrix_def Let_def)
  have k1: "keyed ?w1 w2 pb ''location'' f (V3 (m_location h m))"
    using keyed_keyframe_insert(1) [OF k] v by simp
  have s2: "bake_step w2 w'"
    by (rule bake_step_trans [OF stage_rotation_step [OF b] stage_scale_step [OF c]])
  show ?thesis
    by (rule keyed_mono [OF bake_step_set_matrix_basis stage_location_step(1) [OF a] s2 k1])
qed

lemma bake_frames_ConsE:
  assumes "bake_frames h dl dr ds pb ((m0, f0) # xs) (ep, qp, w) = Inr (ep', qp', w')"
  obtains ep1 qp1 w1 where
    "bake_frame h dl dr ds pb m0 f0 (ep, qp, w) = Inr (ep1, qp1, w1)"
    "bake_frames h dl dr ds pb xs (ep1, qp1, w1) = Inr (ep', qp', w')"
proof -
  from assms have "bind (bake_frame h dl dr ds pb m0 f0 (ep, qp, w)) (bake_frames h dl dr ds pb xs)
      = Inr (ep', qp', w')" by simp
  then obtain s where h1: "bake_frame h dl dr ds pb m0 f0 (ep, qp, w) = Inr s"
    and h2: "bake_frames h dl dr ds pb xs s = Inr (ep', qp', w')" by (rule bindE)
  obtain ep1 qp1 w1 where s: "s = (ep1, qp1, w1)" by (cases s) auto
  show ?thesis by (rule that [OF h1 [unfolded s] h2 [unfolded s]])
qed

lemma bake_frames_keys_location:
  assumes "bake_frames h True dr ds pb xs (ep, qp, w) = Inr (ep', qp', w')"
    and "(m, f) \<in> set xs" and "\<not> use_connect (bones w pb)"
  shows "keyed w w' pb ''location'' f (V3 (m_location h m))"
  using assms
proof (induction xs arbitrary: ep qp w)
  case Nil
  then show ?case by simp
next
  case (Cons x xs)
  obtain m0 f0 where x: "x = (m0, f0)" by (cases x) auto
  from Cons.prems(1) [unfolded x] obtain ep1 qp1 w1 where
    h1: "bake_frame h True dr ds pb m0 f0 (ep, qp, w) = Inr (ep1, qp1, w1)"
    and h2: "bake_frames h True dr ds pb xs (ep1, qp1, w1) = Inr (ep', qp', w')"
    by (rule bake_frames_ConsE)
  have s1: "bake_step w w1" by (rule bake_frame_Inr_step [OF h1])
  have s2: "bake_step w1 w'" by (rule bake_frames_Inr_step [OF h2])
  show ?case
  proof (cases "(m, f) = (m0, f0)")
    case True
    then have "keyed w w1 pb ''location'' f (V3 (m_location h m))"
      using bake_frame_keys_location [OF h1 Cons.prems(3)] by simp
    then show ?thesis by (rule keyed_mono [OF bake_step_refl s1 s2])
  next
    case False
    then have in_xs: "(m, f) \<in> set xs" using Cons.prems(2) x by auto
    have nc: "\<not> use_connect (bones w1 pb)"
      using bake_step_connect [OF s1] Cons.prems(3) by simp
    have "keyed w1 w' pb ''location'' f (V3 (m_location h m))"
      by (rule Cons.IH [OF h2 in_xs nc])
    then show ?thesis by (rule keyed_mono [OF s1 s2 bake_step_refl])
  qed
qed

lemma bake_bones_ConsE:
  assumes "bake_bones h dl dr ds frames ((pb, row) # xs) w = Inr w'"
  obtains ep1 qp1 w1 where
    "bake_frames h dl dr ds pb (zip row frames) (None, None, w) = Inr (ep1, qp1, w1)"
    "bake_bones h dl dr ds frames xs w1 = Inr w'"
proof -
  from assms have "bind (bake_frames h dl dr ds pb (zip row frames) (None, None, w))
       (\<lambda>(ep, qp, w1). bake_bones h dl dr ds frames xs w1) = Inr w'" by simp
  then obtain s where h1: "bake_frames h dl dr ds pb (zip row frames) (None, None, w) = Inr s"
    and h2: "(case s of (ep, qp, w1) \<Rightarrow> bake_bones h dl dr ds frames xs w1) = Inr w'"
    by (rule bindE)
  obtain ep1 qp1 w1 where s: "s = (ep1, qp1, w1)" by (cases s) auto
  from h2 have h3: "bake_bones h dl dr ds frames xs w1 = Inr w'" unfolding s by simp
  show ?thesis by (rule that [OF h1 [unfolded s] h3])
qed

lemma bake_bones_keys_location:
  assumes "bake_bones h True dr ds frames xs w = Inr w'"
    and "(pb, row) \<in> set xs" and "(m, f) \<in> set (zip row frames)"
    and "\<not> use_connect (bones w pb)"
  shows "keyed w w' pb ''location'' f (V3 (m_location h m))"
  using assms
proof (induction xs arbitrary: w)
  case Nil
  then show ?case by simp
next
  case (Cons x xs)
  obtain pb0 row0 where x: "x = (pb0, row0)" by (cases x) auto
  from Cons.prems(1) [unfolded x] obtain ep1 qp1 w1 where
    h1: "bake_frames h True dr ds pb0 (zip row0 frames) (None, None, w) = Inr (ep1, qp1, w1)"
    and h2: "bake_bones h True dr ds frames xs w1 = Inr w'"
    by (rule bake_bones_ConsE)
  have s1: "bake_step w w1" by (rule bake_frames_Inr_step [OF h1])
  have s2: "bake_step w1 w'" by (rule bake_bones_Inr_step [OF h2])
  show ?case
  proof (cases "(pb, row) = (pb0, row0)")
    case True
    then have h1': "bake_frames h True dr ds pb (zip row frames) (None, None, w) = Inr (ep1, qp1, w1)"
      using h1 by simp
    have "keyed w w1 pb ''location'' f (V3 (m_location h m))"
      by (rule bake_frames_keys_location [OF h1' Cons.prems(3) Cons.prems(4)])
    then show ?thesis by (rule keyed_mono [OF bake_step_refl s1 s2])
  next
    case False
    then have in_xs: "(pb, row) \<in> set xs" using Cons.prems(2) x by auto
    have nc: "\<not> use_connect (bones w1 pb)"
      using bake_step_connect [OF s1] Cons.prems(4) by simp
    have "keyed w1 w' pb ''location'' f (V3 (m_location h m))"
      by (rule Cons.IH [OF h2 in_xs Cons.prems(3) nc])
    then show ?thesis by (rule keyed_mono [OF s1 s2 bake_step_refl])
  qed
qed

lemma sample_frames_rows:
  assumes "sample_frames h pbs frames info w = (info', w')"
    and "length info = length pbs" and "\<forall>row\<in>set info. length row = n"
  shows "length info' = length pbs \<and> (\<forall>row\<in>set info'. length row = n + length frames)"
  using assms
proof (induction frames arbitrary: info w n)
  case Nil
  then show ?case by simp
next
  case (Cons f fs)
  let ?w1 = "view_layer_update h (frame_set h f w)"
  let ?info1 = "map (\<lambda>(row, pb). row @ [visual_local h ?w1 pb]) (zip info pbs)"
  have r: "sample_frames h pbs fs ?info1 ?w1 = (info', w')"
    using Cons.prems(1) by (simp add: Let_def)
  have l: "length ?info1 = length pbs" using Cons.prems(2) by simp
  have n: "\<forall>row\<in>set ?info1. length row = Suc n"
    using Cons.prems(3) by (auto dest: set_zip_leftD)
  from Cons.IH [OF r l n] show ?case by simp
qed

lemma custom_bake_InrE:
  assumes "custom_bake h frames pbs dl dr ds w = Inr w'"
  obtains info w1 w2 where
    "sample_frames h pbs frames (replicate (length pbs) []) w = (info, w1)"
    "bake_bones h dl dr ds frames (zip pbs info) w1 = Inr w2"
    "w' = frame_set h (frame_current w) w2"
proof -
  obtain info w1 where sf:
    "sample_frames h pbs frames (replicate (length pbs) []) w = (info, w1)"
    by (cases "sample_frames h pbs frames (replicate (length pbs) []) w") auto
  have fl: "\<not> (\<not> dl \<and> \<not> dr \<and> \<not> ds)"
  proof
    assume "\<not> dl \<and> \<not> dr \<and> \<not> ds"
    then have "custom_bake h frames pbs dl dr ds w = Inl (ValueError ''No channels enabled'', w)"
      by (simp add: custom_bake_def)
    with assms show False by simp
  qed
  have cb: "custom_bake h frames pbs dl dr ds w =
      bind (bake_bones h dl dr ds frames (zip pbs info) w1)
        (\<lambda>w2. Inr (frame_set h (frame_current w) w2))"
    using fl sf by (auto simp: custom_bake_def Let_def)
  from assms [unfolded cb] obtain w2 where
    b: "bake_bones h dl dr ds frames (zip pbs info) w1 = Inr w2"
    and e: "Inr (frame_set h (frame_current w) w2) = (Inr w' :: world outcome)"
    by (rule bindE)
  from e have "w' = frame_set h (frame_current w) w2" by simp
  with sf b show ?thesis by (rule that)
qed

lemma custom_bake_keys_location:
  assumes "custom_bake h frames pbs True dr ds w = Inr w'"
    and "pb \<in> set pbs" and "f \<in> set frames" and "\<not> use_connect (bones w pb)"
  shows "f \<in> set (location_frames w w' pb)"
proof -
  from assms(1) obtain info w1 w2 where
    sf: "sample_frames h pbs frames (replicate (length pbs) []) w = (info, w1)"
    and bb: "bake_bones h True dr ds frames (zip pbs info) w1 = Inr w2"
    and w': "w' = frame_set h (frame_current w) w2"
    by (rule custom_bake_InrE)
  have rows: "length info = length pbs \<and> (\<forall>row\<in>set info. length row = 0 + length frames)"
    by (rule sample_frames_rows [OF sf]) simp_all
  from assms(2) obtain i where i: "i < length pbs" "pbs ! i = pb"
    by (auto simp: in_set_conv_nth)
  from assms(3) obtain j where j: "j < length frames" "frames ! j = f"
    by (auto simp: in_set_conv_nth)
  let ?row = "info ! i"
  have li: "i < length info" using i rows by simp
  have lr: "length ?row = length frames" using rows li by simp
  have in1: "(pb, ?row) \<in> set (zip pbs info)"
    using i li by (auto simp: set_zip)
  have in2: "(?row ! j, f) \<in> set (zip ?row frames)"
    using j lr by (auto simp: set_zip)
  have s1: "bake_step w w1"
    using bake_step_sample_frames [of w h pbs frames "replicate (length pbs) []"] sf by simp
  have nc: "\<not> use_connect (bones w1 pb)" using bake_step_connect [OF s1] assms(4) by simp
  have k: "keyed w1 w2 pb ''location'' f (V3 (m_location h (?row ! j)))"
    by (rule bake_bones_keys_location [OF bb in1 in2 nc])
  have s2: "bake_step w1 w2" by (rule bake_bones_Inr_step [OF bb])
  have s3: "bake_step w2 w'" unfolding w' by (rule bake_step_frame_set)
  have "keyed w w' pb ''location'' f (V3 (m_location h (?row ! j)))"
    by (rule keyed_mono [OF s1 s2 s3 k])
  then show ?thesis by (rule keyed_location_frames)
qed

lemma bake_frame_connected:
  assumes "use_connect (bones w pb)"
  shows "bake_frame h True False False pb m f (ep, qp, w) = Inr (ep, qp, set_matrix_basis h pb m w)"
proof -
  have "bake_step w (set_matrix_basis h pb m w)" by (rule bake_step_set_matrix_basis)
  from bake_step_connect [OF this] assms
  have "use_connect (bones (set_matrix_basis h pb m w) pb)" by simp
  then show ?thesis by (simp add: bake_frame_def Let_def)
qed

lemma bake_frames_connected:
  assumes "use_connect (bones w pb)"
  shows "\<exists>w'. bake_frames h True False False pb xs (ep, qp, w) = Inr (ep, qp, w')"
  using assms
proof (induction xs arbitrary: w)
  case Nil
  then show ?case by simp
next
  case (Cons x xs)
  obtain m f where x: "x = (m, f)" by (cases x) auto
  let ?w1 = "set_matrix_basis h pb m w"
  have "bake_step w ?w1" by (rule bake_step_set_matrix_basis)
  from bake_step_connect [OF this] Cons.prems
  have "use_connect (bones ?w1 pb)" by simp
  from Cons.IH [OF this] obtain w' where
    "bake_frames h True False False pb xs (ep, qp, ?w1) = Inr (ep, qp, w')" by blast
  then show ?case using bake_frame_connected [OF Cons.prems, of h m f ep qp] x by simp
qed

lemma bake_bones_connected:
  assumes "\<forall>x\<in>set xs. use_connect (bones w (fst x))"
  shows "\<exists>w'. bake_bones h True False False frames xs w = Inr w'"
  using assms
proof (induction xs arbitrary: w)
  case Nil
  then show ?case by simp
next
  case (Cons x xs)
  obtain pb row where x: "x = (pb, row)" by (cases x) auto
  have "use_connect (bones w pb)" using Cons.prems x by simp
  from bake_frames_connected [OF this, of h "zip row frames" None None] obtain w1 where
    h1: "bake_frames h True False False pb (zip row frames) (None, None, w) = Inr (None, None, w1)"
    by blast
  have s1: "bake_step w w1" by (rule bake_frames_Inr_step [OF h1])
  have "\<forall>x\<in>set xs. use_connect (bones w1 (fst x))"
  proof
    fix y assume "y \<in> set xs"
    then have "use_connect (bones w (fst y))" using Cons.prems by simp
    then show "use_connect (bones w1 (fst y))" using bake_step_connect [OF s1, of "fst y"] by simp
  qed
  from Cons.IH [OF this] obtain w' where
    "bake_bones h True False False frames xs w1 = Inr w'" by blast
  then show ?case using h1 x by simp
qed

lemma custom_bake_connected:
  assumes "\<forall>pb\<in>set pbs. use_connect (bones w pb)"
  shows "\<exists>w'. custom_bake h frames pbs True False False w = Inr w'"
proof -
  obtain info w1 where sf:
    "sample_frames h pbs frames (replicate (length pbs) []) w = (info, w1)"
    by (cases "sample_frames h pbs frames (replicate (length pbs) []) w") auto
  have s1: "bake_step w w1"
    using bake_step_sample_frames [of w h pbs frames "replicate (length pbs) []"] sf by simp
  have "\<forall>x\<in>set (zip pbs info). use_connect (bones w1 (fst x))"
  proof
    fix x assume "x \<in> set (zip pbs info)"
    moreover obtain a b where x: "x = (a, b)" by (cases x) auto
    ultimately have "(a, b) \<in> set (zip pbs info)" by simp
    then have "a \<in> set pbs" by (rule set_zip_leftD)
    then have "fst x \<in> set pbs" using x by simp
    then have "use_connect (bones w (fst x))" using assms by simp
    then show "use_connect (bones w1 (fst x))" using bake_step_connect [OF s1, of "fst x"] by simp
  qed
  from bake_bones_connected [OF this, of h frames] obtain w2 where
    "bake_bones h True False False frames (zip pbs info) w1 = Inr w2" by blast
  then show ?thesis using sf by (simp add: custom_bake_def Let_def)
qed

lemmas demo_defs = custom_bake_def demo_host_def demo_world_def bake_frame_def
  bake_rotation_def keyframe_insert_def set_matrix_basis_def update_bone_def apply_matrix_def
  frame_set_def view_layer_update_def demo_bone_def demo_channels_def Let_def

text \<open>
  C3. A bone whose connected flag is set never gets a location key from \<open>custom_bake\<close>,
  whatever the flags, the frame ranges and the number of runs, and whether the runs
  return or raise. Skipping it is silent: a run with only Location enabled over connected
  bones returns normally, even on a host that would refuse every insertion. When a run
  with Location enabled returns, every listed bone that is not connected has a location
  key at every frame of the range.
\<close>

theorem custom_bake_location_keys:
  "(use_connect (bones w pb) \<longrightarrow>
      location_frames w (final_world (bake_repeatedly h runs pbs dl dr ds w)) pb = []) \<and>
   ((\<forall>b\<in>set pbs. use_connect (bones w b)) \<longrightarrow>
      (\<exists>w'. custom_bake h frames pbs True False False w = Inr w')) \<and>
   (custom_bake h frames pbs True dr ds w = Inr w' \<and> pb \<in> set pbs \<and>
      \<not> use_connect (bones w pb) \<longrightarrow> set frames \<subseteq> set (location_frames w w' pb))"
proof (intro conjI impI)
  assume "use_connect (bones w pb)"
  with bake_step_bake_repeatedly
  show "location_frames w (final_world (bake_repeatedly h runs pbs dl dr ds w)) pb = []"
    by (rule bake_step_location_frames)
next
  assume "\<forall>b\<in>set pbs. use_connect (bones w b)"
  then show "\<exists>w'. custom_bake h frames pbs True False False w = Inr w'"
    by (rule custom_bake_connected)
next
  assume a: "custom_bake h frames pbs True dr ds w = Inr w' \<and> pb \<in> set pbs \<and>
      \<not> use_connect (bones w pb)"
  show "set frames \<subseteq> set (location_frames w w' pb)"
  proof
    fix f assume "f \<in> set frames"
    with a show "f \<in> set (location_frames w w' pb)"
      using custom_bake_keys_location [of h frames pbs dr ds w w' pb f] by blast
  qed
qed

theorem custom_bake_location_keys_witness:
  "location_frames demo_world
     (final_world (bake_repeatedly demo_host [[5, 6], [6, 7]] [(''Rig'', ''Hand''), (''Rig'', ''Arm'')]
        True True True demo_world)) (''Rig'', ''Hand'') = [] \<and>
   \<not> isl (custom_bake failing_host [5, 6] [(''Rig'', ''Hand'')] True False False demo_world) \<and>
   set [5, 6] \<subseteq> set (location_frames demo_world
     (final_world (custom_bake demo_host [5, 6] [(''Rig'', ''Hand''), (''Rig'', ''Arm'')]
        True True True demo_world)) (''Rig'', ''Arm''))"
proof -
  have c: "use_connect (bones demo_world (''Rig'', ''Hand''))"
    by (simp add: demo_world_def demo_bone_def)
  have nc: "\<not> use_connect (bones demo_world (''Rig'', ''Arm''))"
    by (simp add: demo_world_def demo_bone_def)
  have allc: "\<forall>b\<in>set [(''Rig'', ''Hand'')]. use_connect (bones demo_world b)"
    using c by simp
  have "\<exists>w'. custom_bake demo_host [5, 6] [(''Rig'', ''Hand''), (''Rig'', ''Arm'')]
        True True True demo_world = Inr w'"
    by (simp add: demo_defs)
  then obtain w' where r: "custom_bake demo_host [5, 6] [(''Rig'', ''Hand''), (''Rig'', ''Arm'')]
        True True True demo_world = Inr w'" by blast
  have a1: "location_frames demo_world
     (final_world (bake_repeatedly demo_host [[5, 6], [6, 7]] [(''Rig'', ''Hand''), (''Rig'', ''Arm'')]
        True True True demo_world)) (''Rig'', ''Hand'') = []"
    using custom_bake_location_keys [where w = demo_world and pb = "(''Rig'', ''Hand'')"
        and h = demo_host and runs = "[[5, 6], [6, 7]]"
        and pbs = "[(''Rig'', ''Hand''), (''Rig'', ''Arm'')]" and dl = True and dr = True
        and ds = True] c by blast
  have a2: "\<exists>w'. custom_bake failing_host [5, 6] [(''Rig'', ''Hand'')] True False False demo_world = Inr w'"
    using custom_bake_location_keys [where w = demo_world and pbs = "[(''Rig'', ''Hand'')]"
        and h = failing_host and frames = "[5, 6]"] allc by blast
  have a3: "set [5, 6] \<subseteq> set (location_frames demo_world w' (''Rig'', ''Arm''))"
    using custom_bake_location_keys [where w = demo_world and pb = "(''Rig'', ''Arm'')"
        and h = demo_host and pbs = "[(''Rig'', ''Hand''), (''Rig'', ''Arm'')]" and dr = True
        and ds = True and frames = "[5, 6]" and w' = w'] r nc by simp
  from a2 have a4:
    "\<not> isl (custom_bake failing_host [5, 6] [(''Rig'', ''Hand'')] True False False demo_world)"
    by auto
  show ?thesis using a1 a4 a3 r by simp
qed
















lemma working_bones_distinct:
  "distinct src \<Longrightarrow> d \<notin> set (working_bones src (Some d))"
  by (simp add: working_bones_def)

lemma space_switch_working:
  "working_bones (working_bones src dest) dest = working_bones src dest \<Longrightarrow>
   space_switch h c (working_bones src dest) dest frames w = space_switch h c src dest frames w"
  unfolding space_switch_def by simp

text \<open>
  C6. The bones \<open>_space_switch\<close> works on are the given ones without the destination:
  for a selection (a list without repetition) the destination is not among them, and the
  run is the run on the list with the destination taken out beforehand. When no bone is
  left the call returns at once with the scene it was given: nothing raised, hidden,
  created, constrained or selected.
\<close>

theorem space_switch_self_target:
  "(distinct src \<longrightarrow>
      d \<notin> set (working_bones src (Some d)) \<and>
      space_switch h c src (Some d) frames w =
        space_switch h c (working_bones src (Some d)) (Some d) frames w) \<and>
   (working_bones src dest = [] \<longrightarrow> space_switch h c src dest frames w = Inr w)"
proof (intro conjI impI)
  assume d: "distinct src"
  then show "d \<notin> set (working_bones src (Some d))" by (rule working_bones_distinct)
  have "d \<notin> set (remove1 d src)" using d by simp
  then have "working_bones (working_bones src (Some d)) (Some d) = working_bones src (Some d)"
    by (simp add: working_bones_def remove1_idem)
  then show "space_switch h c src (Some d) frames w =
        space_switch h c (working_bones src (Some d)) (Some d) frames w"
    by (rule space_switch_working [symmetric])
next
  assume "working_bones src dest = []"
  then show "space_switch h c src dest frames w = Inr w" by (simp add: space_switch_def)
qed

theorem space_switch_self_target_witness:
  "(''Rig'', ''Arm'') \<notin> set (working_bones [(''Rig'', ''Arm'')] (Some (''Rig'', ''Arm''))) \<and>
   space_switch demo_host demo_ctx [(''Rig'', ''Arm'')] (Some (''Rig'', ''Arm'')) [1, 2] demo_world =
     space_switch demo_host demo_ctx (working_bones [(''Rig'', ''Arm'')] (Some (''Rig'', ''Arm'')))
       (Some (''Rig'', ''Arm'')) [1, 2] demo_world \<and>
   space_switch demo_host demo_ctx [(''Rig'', ''Arm'')] (Some (''Rig'', ''Arm'')) [1, 2] demo_world =
     Inr demo_world"
proof -
  have d: "distinct [(''Rig'', ''Arm'')]" by simp
  have e: "working_bones [(''Rig'', ''Arm'')] (Some (''Rig'', ''Arm'')) = []"
    by (simp add: working_bones_def)
  show ?thesis
    using space_switch_self_target [where src = "[(''Rig'', ''Arm'')]" and d = "(''Rig'', ''Arm'')"
        and dest = "Some (''Rig'', ''Arm'')" and h = demo_host and c = demo_ctx
        and frames = "[1, 2]" and w = demo_world] d e
    by blast
qed

end
